theory Spec2Isabelle
  imports Main "HOL-Library.Word"
begin

unbundle bit_operations_syntax

section \<open>HardenedBSD segvguard: \<^verbatim>\<open>sys/hardenedbsd/hbsd_pax_segvguard.c\<close>\<close>

text \<open>
  A shallow embedding of the crash tracker. Every function of the file is a function
  on an explicit state (the four process-wide tunables, the hash table with its
  per-bucket mutexes, and the console). What the rest of the kernel decides (whether an
  allocation succeeds, what a vnode answers) is an argument of the function. Threads
  interleave where no bucket mutex is held: the steps of \<open>reachable\<close> below are the
  stretches of code that run under a mutex or touch no shared state. Time is not
  modelled; a countdown that fires is a step of its own (\<open>callout_fire\<close>).
\<close>

subsection \<open>Types\<close>

type_synonym pax_flag_t = "32 word"
type_synonym pax_state_t = "32 word"
type_synonym uid_t = "32 word"
type_synonym ino_t = "32 word"
type_synonym mode_t = "16 word"
type_synonym size_t = "64 word"

text \<open>
  The constants and helpers that the file takes from headers outside it
  (\<^verbatim>\<open>sys/pax.h\<close>, \<^verbatim>\<open>sys/stat.h\<close>, \<^verbatim>\<open>sys/mount.h\<close>, \<^verbatim>\<open>sys/fnv_hash.h\<close>,
  \<^verbatim>\<open>sys/kernel.h\<close>) are parameters of the model, collected in one record.
\<close>

record kconsts =
  PAX_FEATURE_DISABLED :: pax_state_t
  PAX_FEATURE_OPTIN :: pax_state_t
  PAX_FEATURE_OPTOUT :: pax_state_t
  PAX_FEATURE_FORCE_ENABLED :: pax_state_t
  PAX_NOTE_SEGVGUARD :: pax_flag_t
  PAX_NOTE_NOSEGVGUARD :: pax_flag_t
  S_ISUID :: mode_t
  S_ISGID :: mode_t
  MNAMELEN :: nat
  hz :: int
  FNV1_32_INIT :: "32 word"
  fnv_32_buf :: "8 word list \<Rightarrow> 32 word \<Rightarrow> 32 word"

text \<open>
  What the source itself relies on: the four modes are distinct (they are the labels of
  one \<^verbatim>\<open>switch\<close>), and the two note bits are non-zero and disjoint.
\<close>

definition consts_ok :: "kconsts \<Rightarrow> bool" where
  "consts_ok c \<longleftrightarrow>
     distinct [PAX_FEATURE_DISABLED c, PAX_FEATURE_OPTIN c,
               PAX_FEATURE_OPTOUT c, PAX_FEATURE_FORCE_ENABLED c] \<and>
     PAX_NOTE_SEGVGUARD c \<noteq> 0 \<and> PAX_NOTE_NOSEGVGUARD c \<noteq> 0 \<and>
     PAX_NOTE_SEGVGUARD c AND PAX_NOTE_NOSEGVGUARD c = 0"

text \<open>
  \<^verbatim>\<open>struct vattr\<close>: the two attributes the file reads. \<^verbatim>\<open>va_fileid\<close> is a
  \<^verbatim>\<open>long\<close>, 64 bits here as \<^verbatim>\<open>size_t\<close> is, and wider than the \<^verbatim>\<open>ino_t\<close> of
  \<^verbatim>\<open>se_inode\<close>, which the file prints with \<^verbatim>\<open>%u\<close>: storing a file id in an entry
  narrows it, and comparing the two widens the stored one.
\<close>

record vattr =
  va_fileid :: "64 word"
  va_mode :: mode_t

text \<open>
  A vnode as the file uses it: whether the caller already holds it exclusively
  (\<^verbatim>\<open>VOP_ISLOCKED(vn) == LK_EXCLUSIVE\<close>), whether \<^verbatim>\<open>vn_lock\<close> returns an error, what
  \<^verbatim>\<open>VOP_GETATTR\<close> returns (\<open>None\<close> for a non-zero error), and the mount's
  \<^verbatim>\<open>f_mntonname\<close> as the characters before its terminating NUL. One value of this
  record is what the vnode answers during one call of \<^verbatim>\<open>pax_segvguard_lookup\<close>, of
  \<^verbatim>\<open>pax_segvguard_add\<close> or of \<^verbatim>\<open>pax_segvguard_setup_flags\<close>; a crash report, which
  reads its vnode in the lookup and again in the insert, takes a value for each.
\<close>

record vnode =
  vop_islocked_exclusive :: bool
  vn_lock_error :: bool
  vop_getattr :: "vattr option"
  f_mntonname :: string

text \<open>\<^verbatim>\<open>pr->pr_hbsd.segvguard\<close>: the configuration of one prison.\<close>

record hbsd_segvguard =
  status :: pax_state_t
  expiry :: int
  suspension :: int
  maxcrashes :: int

text \<open>
  A thread with what the file reads through it: \<^verbatim>\<open>td->td_proc->p_pid\<close>, the
  process's policy flags, \<^verbatim>\<open>td->td_proc->p_textvp\<close> (\<open>None\<close> for \<^verbatim>\<open>NULL\<close>),
  \<^verbatim>\<open>td->td_ucred->cr_ruid\<close>, and the configuration of the prison
  \<^verbatim>\<open>pax_get_prison_td(td)\<close>.
\<close>

record thread =
  p_pid :: int
  p_pax :: pax_flag_t
  p_textvp :: "vnode option"
  cr_ruid :: uid_t
  td_prison :: hbsd_segvguard

record image_params =
  vp :: vnode

text \<open>
  \<^verbatim>\<open>struct pax_segvguard_entry\<close>. The mount point is the content of the buffer up to
  its first NUL; the callout is \<open>None\<close> while not armed and \<open>Some t\<close> when armed to
  run \<^verbatim>\<open>pax_segvguard_cleaner\<close> on this entry after \<open>t\<close> ticks.
\<close>

record pax_segvguard_entry =
  se_uid :: uid_t
  se_inode :: ino_t
  se_mntpoint :: string
  se_ncrashes :: size_t
  se_callout :: "int option"

record pax_segvguard_entryhead =
  lh_first :: "pax_segvguard_entry list"
  bucket_mtx :: bool

text \<open>A pointer to an entry in the table: its bucket and its position in the list.\<close>

type_synonym se_ptr = "nat \<times> nat"

text \<open>What the file prints, one constructor for each \<^verbatim>\<open>printf\<close> or log call.\<close>

datatype console_msg =
    MsgExpired ino_t string uid_t
  | MsgGetattrError string
  | MsgSuspending string int int size_t
  | MsgPreventing string int
  | MsgInvalidStatus pax_state_t
  | MsgStatus pax_state_t
  | MsgExpiry int
  | MsgSuspension int
  | MsgMaxcrashes int

record segvguard =
  pax_segvguard_status :: pax_state_t
  pax_segvguard_expiry :: int
  pax_segvguard_suspension :: int
  pax_segvguard_maxcrashes :: int
  pax_segvguard_hashtbl :: "pax_segvguard_entryhead list"
  console :: "console_msg list"

text \<open>The values an entry point returns: \<^verbatim>\<open>0\<close>, \<^verbatim>\<open>EFAULT\<close> or \<^verbatim>\<open>EPERM\<close>.\<close>

datatype errno = ESUCCESS | EFAULT | EPERM

definition pax_segvguard_hashsize :: nat where
  "pax_segvguard_hashsize = 512"

definition printf :: "console_msg \<Rightarrow> segvguard \<Rightarrow> segvguard" where
  "printf m s = s\<lparr>console := console s @ [m]\<rparr>"

subsection \<open>Policy resolver\<close>

text \<open>
  \<^verbatim>\<open>pax_segvguard_setup_flags\<close>. \<open>flags\<close> starts at 0; each branch sets one bit and
  clears the other, in the order of the source. In the opt-in branch the attributes
  are read only when \<^verbatim>\<open>VOP_GETATTR\<close> returned 0, as the \<^verbatim>\<open>||\<close> of the source
  does. The \<^verbatim>\<open>KASSERT\<close> that the image and the thread belong to one process is a
  precondition on the caller and has no counterpart here.
\<close>

definition pax_segvguard_setup_flags ::
  "kconsts \<Rightarrow> image_params \<Rightarrow> thread \<Rightarrow> pax_flag_t \<Rightarrow> pax_flag_t" where
  "pax_segvguard_setup_flags c imgp td mode =
     (let flags = (0 :: pax_flag_t);
          st = status (td_prison td) in
      if st = PAX_FEATURE_DISABLED c then
        (flags AND NOT (PAX_NOTE_SEGVGUARD c)) OR PAX_NOTE_NOSEGVGUARD c
      else if st = PAX_FEATURE_FORCE_ENABLED c then
        (flags OR PAX_NOTE_SEGVGUARD c) AND NOT (PAX_NOTE_NOSEGVGUARD c)
      else if st = PAX_FEATURE_OPTIN c then
        (if (case vop_getattr (vp imgp) of
               None \<Rightarrow> True
             | Some vap \<Rightarrow> va_mode vap AND (S_ISUID c OR S_ISGID c) \<noteq> 0 \<or>
                           mode AND PAX_NOTE_SEGVGUARD c \<noteq> 0)
         then (flags OR PAX_NOTE_SEGVGUARD c) AND NOT (PAX_NOTE_NOSEGVGUARD c)
         else (flags AND NOT (PAX_NOTE_SEGVGUARD c)) OR PAX_NOTE_NOSEGVGUARD c)
      else if st = PAX_FEATURE_OPTOUT c then
        (if mode AND PAX_NOTE_NOSEGVGUARD c \<noteq> 0
         then (flags AND NOT (PAX_NOTE_SEGVGUARD c)) OR PAX_NOTE_NOSEGVGUARD c
         else (flags OR PAX_NOTE_SEGVGUARD c) AND NOT (PAX_NOTE_NOSEGVGUARD c))
      else (flags OR PAX_NOTE_SEGVGUARD c) AND NOT (PAX_NOTE_NOSEGVGUARD c))"

text \<open>
  Modelled from the spec: \<^verbatim>\<open>pax_get_flags_td\<close> is defined outside this file; it
  hands back the execution policy flags attached to the thread's process.
\<close>

definition pax_get_flags_td :: "thread \<Rightarrow> pax_flag_t" where
  "pax_get_flags_td td = p_pax td"

definition pax_segvguard_active_td :: "kconsts \<Rightarrow> thread \<Rightarrow> bool" where
  "pax_segvguard_active_td c td =
     (let flags = pax_get_flags_td td in
      if flags AND PAX_NOTE_SEGVGUARD c = PAX_NOTE_SEGVGUARD c then True
      else if flags AND PAX_NOTE_NOSEGVGUARD c = PAX_NOTE_NOSEGVGUARD c then False
      else True)"

subsection \<open>Mode validation and initialisation\<close>

definition pax_segvguard_validate_flags :: "kconsts \<Rightarrow> pax_state_t \<Rightarrow> pax_state_t" where
  "pax_segvguard_validate_flags c flags =
     (if flags = PAX_FEATURE_DISABLED c \<or> flags = PAX_FEATURE_OPTIN c \<or>
         flags = PAX_FEATURE_OPTOUT c \<or> flags = PAX_FEATURE_FORCE_ENABLED c
      then flags
      else PAX_FEATURE_FORCE_ENABLED c)"

text \<open>
  \<^verbatim>\<open>pax_segvguard_sysinit\<close>: the status from the loader is checked, the settings are
  printed when \<^verbatim>\<open>bootverbose\<close> is set, and the table is allocated zeroed with every
  bucket mutex initialised (not held).
\<close>

definition pax_segvguard_sysinit :: "kconsts \<Rightarrow> bool \<Rightarrow> segvguard \<Rightarrow> segvguard" where
  "pax_segvguard_sysinit c bootverbose s =
     (let s1 = (if pax_segvguard_status s = PAX_FEATURE_DISABLED c \<or>
                   pax_segvguard_status s = PAX_FEATURE_OPTIN c \<or>
                   pax_segvguard_status s = PAX_FEATURE_OPTOUT c \<or>
                   pax_segvguard_status s = PAX_FEATURE_FORCE_ENABLED c
                then s
                else (printf (MsgInvalidStatus (pax_segvguard_status s)) s)
                       \<lparr>pax_segvguard_status := PAX_FEATURE_FORCE_ENABLED c\<rparr>);
          s2 = (if bootverbose
                then printf (MsgMaxcrashes (pax_segvguard_maxcrashes s1))
                      (printf (MsgSuspension (pax_segvguard_suspension s1))
                        (printf (MsgExpiry (pax_segvguard_expiry s1))
                          (printf (MsgStatus (pax_segvguard_status s1)) s1)))
                else s1)
      in s2\<lparr>pax_segvguard_hashtbl :=
              replicate pax_segvguard_hashsize \<lparr>lh_first = [], bucket_mtx = False\<rparr>\<rparr>)"

subsection \<open>Prison configuration\<close>

text \<open>
  \<^verbatim>\<open>pax_segvguard_init_prison\<close>: \<^verbatim>\<open>prison0\<close> takes the process-wide values, any
  other prison copies its parent's.
\<close>

definition pax_segvguard_init_prison ::
  "bool \<Rightarrow> hbsd_segvguard \<Rightarrow> segvguard \<Rightarrow> hbsd_segvguard" where
  "pax_segvguard_init_prison is_prison0 pr_p s =
     (if is_prison0
      then \<lparr>status = pax_segvguard_status s, expiry = pax_segvguard_expiry s,
            suspension = pax_segvguard_suspension s,
            maxcrashes = pax_segvguard_maxcrashes s\<rparr>
      else \<lparr>status = status pr_p, expiry = expiry pr_p,
            suspension = suspension pr_p, maxcrashes = maxcrashes pr_p\<rparr>)"

text \<open>
  The three handlers of the control interface. \<open>err\<close> is what
  \<^verbatim>\<open>sysctl_handle_int\<close> returned and \<open>newval\<close> the value it read (\<open>None\<close> when
  \<^verbatim>\<open>req->newptr\<close> is \<^verbatim>\<open>NULL\<close>). The result is the return value, the prison's
  configuration and the process-wide state.
\<close>

definition sysctl_pax_segvguard_expiry ::
  "bool \<Rightarrow> int \<Rightarrow> int option \<Rightarrow> hbsd_segvguard \<Rightarrow> segvguard \<Rightarrow>
   int \<times> hbsd_segvguard \<times> segvguard" where
  "sysctl_pax_segvguard_expiry is_prison0 err newval pr s =
     (case newval of
        None \<Rightarrow> (err, pr, s)
      | Some val \<Rightarrow>
          if err \<noteq> 0 then (err, pr, s)
          else (0, pr\<lparr>expiry := val\<rparr>,
                if is_prison0 then s\<lparr>pax_segvguard_expiry := val\<rparr> else s))"

definition sysctl_pax_segvguard_suspension ::
  "bool \<Rightarrow> int \<Rightarrow> int option \<Rightarrow> hbsd_segvguard \<Rightarrow> segvguard \<Rightarrow>
   int \<times> hbsd_segvguard \<times> segvguard" where
  "sysctl_pax_segvguard_suspension is_prison0 err newval pr s =
     (case newval of
        None \<Rightarrow> (err, pr, s)
      | Some val \<Rightarrow>
          if err \<noteq> 0 then (err, pr, s)
          else (0, pr\<lparr>suspension := val\<rparr>,
                if is_prison0 then s\<lparr>pax_segvguard_suspension := val\<rparr> else s))"

definition sysctl_pax_segvguard_maxcrashes ::
  "bool \<Rightarrow> int \<Rightarrow> int option \<Rightarrow> hbsd_segvguard \<Rightarrow> segvguard \<Rightarrow>
   int \<times> hbsd_segvguard \<times> segvguard" where
  "sysctl_pax_segvguard_maxcrashes is_prison0 err newval pr s =
     (case newval of
        None \<Rightarrow> (err, pr, s)
      | Some val \<Rightarrow>
          if err \<noteq> 0 then (err, pr, s)
          else (0, pr\<lparr>maxcrashes := val\<rparr>,
                if is_prison0 then s\<lparr>pax_segvguard_maxcrashes := val\<rparr> else s))"

subsection \<open>The record table\<close>

text \<open>
  The bytes of a field as \<^verbatim>\<open>fnv_32_buf\<close> reads them (least significant first), and
  the bytes of a string.
\<close>

definition le_bytes :: "'a::len word \<Rightarrow> 8 word list" where
  "le_bytes w = map (\<lambda>i. ucast (drop_bit (8 * i) w)) [0..<LENGTH('a) div 8]"

definition str_bytes :: "string \<Rightarrow> 8 word list" where
  "str_bytes cs = map of_char cs"

text \<open>
  \<^verbatim>\<open>strncpy\<close> and \<^verbatim>\<open>strncmp\<close> on strings given by their content before the NUL:
  at most \<open>n\<close> characters are copied, and at most \<open>n\<close> are compared.
\<close>

definition strncpy :: "string \<Rightarrow> nat \<Rightarrow> string" where
  "strncpy src n = take n src"

definition strncmp_eq :: "string \<Rightarrow> string \<Rightarrow> nat \<Rightarrow> bool" where
  "strncmp_eq a b n \<longleftrightarrow> take n a = take n b"

text \<open>The macro \<^verbatim>\<open>PAX_SEGVGUARD_HASH\<close>: inode, mount point, user, in this order.\<close>

definition PAX_SEGVGUARD_HASH :: "kconsts \<Rightarrow> pax_segvguard_entry \<Rightarrow> nat" where
  "PAX_SEGVGUARD_HASH c se =
     (let h1 = fnv_32_buf c (le_bytes (se_inode se)) (FNV1_32_INIT c);
          h2 = fnv_32_buf c (str_bytes (take (MNAMELEN c) (se_mntpoint se))) h1;
          h3 = fnv_32_buf c (le_bytes (se_uid se)) h2
      in unat h3 mod pax_segvguard_hashsize)"

text \<open>
  The bucket mutexes. A step of the model begins and ends with no mutex held
  (\<open>table_ok\<close> below records it), so a mutex is free whenever it is requested and
  taking it only marks it held.
\<close>

definition mtx_lock :: "nat \<Rightarrow> segvguard \<Rightarrow> segvguard" where
  "mtx_lock b s =
     s\<lparr>pax_segvguard_hashtbl :=
         (pax_segvguard_hashtbl s)
           [b := (pax_segvguard_hashtbl s ! b)\<lparr>bucket_mtx := True\<rparr>]\<rparr>"

definition mtx_unlock :: "nat \<Rightarrow> segvguard \<Rightarrow> segvguard" where
  "mtx_unlock b s =
     s\<lparr>pax_segvguard_hashtbl :=
         (pax_segvguard_hashtbl s)
           [b := (pax_segvguard_hashtbl s ! b)\<lparr>bucket_mtx := False\<rparr>]\<rparr>"

definition PAX_SEGVGUARD_LOCK :: "kconsts \<Rightarrow> pax_segvguard_entry \<Rightarrow> segvguard \<Rightarrow> segvguard" where
  "PAX_SEGVGUARD_LOCK c se s = mtx_lock (PAX_SEGVGUARD_HASH c se) s"

definition PAX_SEGVGUARD_UNLOCK :: "kconsts \<Rightarrow> pax_segvguard_entry \<Rightarrow> segvguard \<Rightarrow> segvguard" where
  "PAX_SEGVGUARD_UNLOCK c se s = mtx_unlock (PAX_SEGVGUARD_HASH c se) s"

text \<open>Reading and writing through a pointer to an entry.\<close>

definition se_at :: "segvguard \<Rightarrow> se_ptr \<Rightarrow> pax_segvguard_entry" where
  "se_at s p = lh_first (pax_segvguard_hashtbl s ! fst p) ! snd p"

definition se_update ::
  "se_ptr \<Rightarrow> (pax_segvguard_entry \<Rightarrow> pax_segvguard_entry) \<Rightarrow> segvguard \<Rightarrow> segvguard" where
  "se_update p f s =
     (let tbl = pax_segvguard_hashtbl s; bk = tbl ! fst p
      in s\<lparr>pax_segvguard_hashtbl :=
             tbl[fst p := bk\<lparr>lh_first := (lh_first bk)[snd p := f (lh_first bk ! snd p)]\<rparr>]\<rparr>)"

definition callout_reset :: "se_ptr \<Rightarrow> int \<Rightarrow> segvguard \<Rightarrow> segvguard" where
  "callout_reset p to_ticks s = se_update p (\<lambda>se. se\<lparr>se_callout := Some to_ticks\<rparr>) s"

definition LIST_INSERT_HEAD :: "nat \<Rightarrow> pax_segvguard_entry \<Rightarrow> segvguard \<Rightarrow> segvguard" where
  "LIST_INSERT_HEAD b se s =
     (let tbl = pax_segvguard_hashtbl s; bk = tbl ! b
      in s\<lparr>pax_segvguard_hashtbl := tbl[b := bk\<lparr>lh_first := se # lh_first bk\<rparr>]\<rparr>)"

definition LIST_REMOVE :: "se_ptr \<Rightarrow> segvguard \<Rightarrow> segvguard" where
  "LIST_REMOVE p s =
     (let tbl = pax_segvguard_hashtbl s; bk = tbl ! fst p
      in s\<lparr>pax_segvguard_hashtbl :=
             tbl[fst p := bk\<lparr>lh_first := take (snd p) (lh_first bk) @
                                          drop (Suc (snd p)) (lh_first bk)\<rparr>]\<rparr>)"

text \<open>\<^verbatim>\<open>pax_segvguard_cleaner\<close>: the callback of every countdown.\<close>

definition pax_segvguard_cleaner :: "se_ptr \<Rightarrow> segvguard \<Rightarrow> segvguard" where
  "pax_segvguard_cleaner p s =
     (let se = se_at s p
      in LIST_REMOVE p (printf (MsgExpired (se_inode se) (se_mntpoint se) (se_uid se)) s))"

text \<open>
  Modelled from the spec: the callout subsystem is outside this file. A countdown
  initialised with \<^verbatim>\<open>callout_init_mtx\<close> on the bucket mutex fires with that mutex
  held for the duration of the callback.
\<close>

definition callout_fire :: "se_ptr \<Rightarrow> segvguard \<Rightarrow> segvguard" where
  "callout_fire p s = mtx_unlock (fst p) (pax_segvguard_cleaner p (mtx_lock (fst p) s))"

text \<open>
  The product of two \<^verbatim>\<open>int\<close>s as the machine computes it, wrapped to 32 bits.
\<close>

definition int_mul :: "int \<Rightarrow> int \<Rightarrow> int" where
  "int_mul a b = sint (word_of_int a * word_of_int b :: 32 word)"

text \<open>
  \<^verbatim>\<open>pax_segvguard_add\<close>. \<open>malloc_ok\<close> says whether the \<^verbatim>\<open>M_NOWAIT\<close> allocation
  succeeded. The argument \<^verbatim>\<open>sbt\<close> is never read and is left out. The file id is
  narrowed to the \<^verbatim>\<open>ino_t\<close> of the entry. The list is not searched: the entry goes
  to the head of its bucket whatever the bucket holds.
\<close>

definition pax_segvguard_add ::
  "kconsts \<Rightarrow> bool \<Rightarrow> thread \<Rightarrow> vnode \<Rightarrow> segvguard \<Rightarrow> se_ptr option \<times> segvguard" where
  "pax_segvguard_add c malloc_ok td vn s =
     (if \<not> malloc_ok then (None, s)
      else if \<not> vop_islocked_exclusive vn \<and> vn_lock_error vn then (None, s)
      else
        case vop_getattr vn of
          None \<Rightarrow> (None, printf (MsgGetattrError ''pax_segvguard_add'') s)
        | Some vat \<Rightarrow>
            let se = \<lparr>se_uid = cr_ruid td, se_inode = ucast (va_fileid vat),
                      se_mntpoint = strncpy (f_mntonname vn) (MNAMELEN c),
                      se_ncrashes = 1, se_callout = None\<rparr>;
                b = PAX_SEGVGUARD_HASH c se;
                s1 = PAX_SEGVGUARD_LOCK c se s;
                s2 = LIST_INSERT_HEAD b se s1;
                s3 = PAX_SEGVGUARD_UNLOCK c se s2;
                s4 = callout_reset (b, 0) (int_mul (expiry (td_prison td)) (hz c)) s3
            in (Some (b, 0), s4))"

text \<open>
  The \<^verbatim>\<open>LIST_FOREACH\<close> of \<^verbatim>\<open>pax_segvguard_lookup\<close>: the position of the first
  entry of the bucket with the inode, mount point and user searched for. The stored
  inode is compared with \<^verbatim>\<open>vat.va_fileid\<close> itself, at the width of the latter.
\<close>

fun LIST_FOREACH_match ::
  "nat \<Rightarrow> 64 word \<Rightarrow> string \<Rightarrow> uid_t \<Rightarrow> pax_segvguard_entry list \<Rightarrow> nat option" where
  "LIST_FOREACH_match n fileid mnt ruid [] = None"
| "LIST_FOREACH_match n fileid mnt ruid (se # rest) =
     (if ucast (se_inode se) = fileid \<and> strncmp_eq mnt (se_mntpoint se) n \<and>
         ruid = se_uid se
      then Some 0
      else map_option Suc (LIST_FOREACH_match n fileid mnt ruid rest))"

text \<open>
  \<^verbatim>\<open>pax_segvguard_lookup\<close>. The key is a local of which only three fields are set;
  the other two are never read and are 0 and \<open>None\<close> here. When an entry is found its
  bucket mutex stays held; when none is found the mutex is released.
\<close>

definition pax_segvguard_lookup ::
  "kconsts \<Rightarrow> thread \<Rightarrow> vnode \<Rightarrow> segvguard \<Rightarrow> se_ptr option \<times> segvguard" where
  "pax_segvguard_lookup c td vn s =
     (if \<not> vop_islocked_exclusive vn \<and> vn_lock_error vn then (None, s)
      else
        case vop_getattr vn of
          None \<Rightarrow> (None, printf (MsgGetattrError ''pax_segvguard_lookup'') s)
        | Some vat \<Rightarrow>
            let sekey = \<lparr>se_uid = cr_ruid td, se_inode = ucast (va_fileid vat),
                         se_mntpoint = strncpy (f_mntonname vn) (MNAMELEN c),
                         se_ncrashes = 0, se_callout = None\<rparr>;
                b = PAX_SEGVGUARD_HASH c sekey;
                s1 = PAX_SEGVGUARD_LOCK c sekey s
            in case LIST_FOREACH_match (MNAMELEN c) (va_fileid vat) (se_mntpoint sekey)
                      (cr_ruid td) (lh_first (pax_segvguard_hashtbl s1 ! b)) of
                 Some i \<Rightarrow> (Some (b, i), s1)
               | None \<Rightarrow> (None, PAX_SEGVGUARD_UNLOCK c sekey s1))"

subsection \<open>The two entry points\<close>

text \<open>
  \<^verbatim>\<open>pax_segvguard_segfault\<close>, run without another thread in between. The lookup
  reads the vnode \<^verbatim>\<open>td->td_proc->p_textvp\<close>; \<open>vn_add\<close> is what the same vnode
  answers when \<^verbatim>\<open>pax_segvguard_add\<close> reads it again. The threshold is compared as
  the source does: \<^verbatim>\<open>se_ncrashes\<close> is a \<^verbatim>\<open>size_t\<close>, so the \<^verbatim>\<open>int\<close>
  \<^verbatim>\<open>pax_segvguard_maxcrashes\<close> is converted to \<^verbatim>\<open>size_t\<close> first.
\<close>

definition pax_segvguard_segfault ::
  "kconsts \<Rightarrow> bool \<Rightarrow> vnode \<Rightarrow> thread \<Rightarrow> string \<Rightarrow> segvguard \<Rightarrow> errno \<times> segvguard" where
  "pax_segvguard_segfault c malloc_ok vn_add td name s =
     (if \<not> pax_segvguard_active_td c td then (ESUCCESS, s)
      else
        case p_textvp td of
          None \<Rightarrow> (EFAULT, s)
        | Some v \<Rightarrow>
            (case pax_segvguard_lookup c td v s of
               (None, s1) \<Rightarrow> (ESUCCESS, snd (pax_segvguard_add c malloc_ok td vn_add s1))
             | (Some se, s1) \<Rightarrow>
                 let s2 = se_update se (\<lambda>e. e\<lparr>se_ncrashes := se_ncrashes e + 1\<rparr>) s1;
                     s3 = (if se_ncrashes (se_at s2 se) \<ge>
                              (word_of_int (pax_segvguard_maxcrashes s2) :: size_t)
                           then callout_reset se (int_mul (suspension (td_prison td)) (hz c))
                                  (printf (MsgSuspending name (p_pid td)
                                             (pax_segvguard_suspension s2)
                                             (se_ncrashes (se_at s2 se))) s2)
                           else s2)
                 in (ESUCCESS, PAX_SEGVGUARD_UNLOCK c (se_at s3 se) s3)))"

text \<open>\<^verbatim>\<open>pax_segvguard_check\<close>.\<close>

definition pax_segvguard_check ::
  "kconsts \<Rightarrow> thread \<Rightarrow> vnode option \<Rightarrow> string \<Rightarrow> segvguard \<Rightarrow> errno \<times> segvguard" where
  "pax_segvguard_check c td v name s =
     (if \<not> pax_segvguard_active_td c td then (ESUCCESS, s)
      else
        case v of
          None \<Rightarrow> (EFAULT, s)
        | Some vn \<Rightarrow>
            (case pax_segvguard_lookup c td vn s of
               (None, s1) \<Rightarrow> (ESUCCESS, s1)
             | (Some se, s1) \<Rightarrow>
                 if se_ncrashes (se_at s1 se) \<ge>
                    (word_of_int (pax_segvguard_maxcrashes s1) :: size_t)
                 then (EPERM, PAX_SEGVGUARD_UNLOCK c (se_at s1 se)
                                (printf (MsgPreventing name (p_pid td)) s1))
                 else (ESUCCESS, PAX_SEGVGUARD_UNLOCK c (se_at s1 se) s1)))"

subsection \<open>Identities, live records and reachable states\<close>

text \<open>
  The identity of a crashing or executing image as \<^verbatim>\<open>pax_segvguard_lookup\<close> and
  \<^verbatim>\<open>pax_segvguard_add\<close> derive it: the real user id, the file id as an \<^verbatim>\<open>ino_t\<close>
  and the mount point. The derivation fails when the vnode cannot be locked or its
  attributes cannot be read.
\<close>

type_synonym identity = "uid_t \<times> ino_t \<times> string"

definition identity_of :: "kconsts \<Rightarrow> thread \<Rightarrow> vnode \<Rightarrow> identity option" where
  "identity_of c td vn =
     (if \<not> vop_islocked_exclusive vn \<and> vn_lock_error vn then None
      else case vop_getattr vn of
             None \<Rightarrow> None
           | Some vat \<Rightarrow>
               Some (cr_ruid td, ucast (va_fileid vat),
                     strncpy (f_mntonname vn) (MNAMELEN c)))"

definition se_key :: "pax_segvguard_entry \<Rightarrow> identity" where
  "se_key se = (se_uid se, se_inode se, se_mntpoint se)"

text \<open>The bucket of an identity: the hash of any entry that carries it.\<close>

definition bucket_of :: "kconsts \<Rightarrow> identity \<Rightarrow> nat" where
  "bucket_of c k =
     (case k of (u, f, m) \<Rightarrow>
        PAX_SEGVGUARD_HASH c \<lparr>se_uid = u, se_inode = f, se_mntpoint = m,
                               se_ncrashes = 0, se_callout = None\<rparr>)"

text \<open>All records of the table, bucket after bucket, and those of one identity.\<close>

definition records :: "segvguard \<Rightarrow> pax_segvguard_entry list" where
  "records s = concat (map lh_first (pax_segvguard_hashtbl s))"

definition records_of :: "identity \<Rightarrow> segvguard \<Rightarrow> pax_segvguard_entry list" where
  "records_of k s = filter (\<lambda>se. se_key se = k) (records s)"

text \<open>
  The invariant of the table between two steps: it has \<open>pax_segvguard_hashsize\<close>
  buckets, no bucket mutex is held, and every record sits in the bucket of its hash
  with a mount point of at most \<open>MNAMELEN\<close> characters and an armed countdown.
\<close>

definition bucket_ok :: "kconsts \<Rightarrow> nat \<Rightarrow> pax_segvguard_entryhead \<Rightarrow> bool" where
  "bucket_ok c b bk \<longleftrightarrow>
     \<not> bucket_mtx bk \<and>
     (\<forall>se \<in> set (lh_first bk).
        PAX_SEGVGUARD_HASH c se = b \<and> length (se_mntpoint se) \<le> MNAMELEN c \<and>
        se_callout se \<noteq> None)"

definition table_ok :: "kconsts \<Rightarrow> segvguard \<Rightarrow> bool" where
  "table_ok c s \<longleftrightarrow>
     length (pax_segvguard_hashtbl s) = pax_segvguard_hashsize \<and>
     (\<forall>b < pax_segvguard_hashsize. bucket_ok c b (pax_segvguard_hashtbl s ! b))"

text \<open>
  The states the subsystem can be in: after initialisation, and from there after any
  crash report, any exec-time check, any countdown of a record in the table firing, and
  any write through the control interface. A crash report whose lookup finds nothing
  has released the bucket mutex when it comes to insert, so that other threads run in
  between: its two halves are steps of their own, \<open>miss\<close> for the lookup and
  \<open>insert\<close> for \<^verbatim>\<open>pax_segvguard_add\<close>. The table is empty after initialisation and
  every lookup misses there, which is why an insert may follow at any later state.
\<close>

inductive reachable :: "kconsts \<Rightarrow> segvguard \<Rightarrow> bool" for c :: kconsts where
  boot: "reachable c (pax_segvguard_sysinit c bootverbose s0)"
| crash: "reachable c s \<Longrightarrow>
          reachable c (snd (pax_segvguard_segfault c malloc_ok vn_add td name s))"
| miss: "reachable c s \<Longrightarrow> fst (pax_segvguard_lookup c td vn s) = None \<Longrightarrow>
         reachable c (snd (pax_segvguard_lookup c td vn s))"
| insert: "reachable c s \<Longrightarrow>
           reachable c (snd (pax_segvguard_add c malloc_ok td vn s))"
| exec: "reachable c s \<Longrightarrow>
         reachable c (snd (pax_segvguard_check c td v name s))"
| expire: "reachable c s \<Longrightarrow> b < length (pax_segvguard_hashtbl s) \<Longrightarrow>
           i < length (lh_first (pax_segvguard_hashtbl s ! b)) \<Longrightarrow>
           se_callout (se_at s (b, i)) \<noteq> None \<Longrightarrow>
           reachable c (callout_fire (b, i) s)"
| set_expiry: "reachable c s \<Longrightarrow>
     reachable c (snd (snd (sysctl_pax_segvguard_expiry is_prison0 err newval pr s)))"
| set_suspension: "reachable c s \<Longrightarrow>
     reachable c (snd (snd (sysctl_pax_segvguard_suspension is_prison0 err newval pr s)))"
| set_maxcrashes: "reachable c s \<Longrightarrow>
     reachable c (snd (snd (sysctl_pax_segvguard_maxcrashes is_prison0 err newval pr s)))"

subsection \<open>A concrete kernel\<close>

text \<open>
  To run the model on concrete inputs: FNV-1 as FreeBSD has it as the hash, the mode
  and note values of a HardenedBSD kernel, one binary on \<^verbatim>\<open>/usr\<close>, a thread of the
  host and two threads of a jail whose administrator has set \<^verbatim>\<open>max_crashes\<close> to 2.
\<close>

definition fnv1_32 :: "8 word list \<Rightarrow> 32 word \<Rightarrow> 32 word" where
  "fnv1_32 buf hval = foldl (\<lambda>h b. (h * 0x01000193) XOR ucast b) hval buf"

definition amd64_kconsts :: kconsts where
  "amd64_kconsts =
     \<lparr>PAX_FEATURE_DISABLED = 0, PAX_FEATURE_OPTIN = 1, PAX_FEATURE_OPTOUT = 2,
      PAX_FEATURE_FORCE_ENABLED = 3,
      PAX_NOTE_SEGVGUARD = 0x10, PAX_NOTE_NOSEGVGUARD = 0x20,
      S_ISUID = 0x800, S_ISGID = 0x400, MNAMELEN = 88, hz = 1000,
      FNV1_32_INIT = 33554467, fnv_32_buf = fnv1_32\<rparr>"

definition ex_vnode :: vnode where
  "ex_vnode = \<lparr>vop_islocked_exclusive = False, vn_lock_error = False,
               vop_getattr = Some \<lparr>va_fileid = 4242, va_mode = 0x16D\<rparr>,
               f_mntonname = ''/usr''\<rparr>"

definition ex_vnode_noattr :: vnode where
  "ex_vnode_noattr = ex_vnode\<lparr>vop_getattr := None\<rparr>"

definition ex_boot :: segvguard where
  "ex_boot = pax_segvguard_sysinit amd64_kconsts False
     \<lparr>pax_segvguard_status = 2, pax_segvguard_expiry = 120,
      pax_segvguard_suspension = 600, pax_segvguard_maxcrashes = 5,
      pax_segvguard_hashtbl = [], console = []\<rparr>"

definition ex_prison0 :: hbsd_segvguard where
  "ex_prison0 = pax_segvguard_init_prison True
     \<lparr>status = 0, expiry = 0, suspension = 0, maxcrashes = 0\<rparr> ex_boot"

definition ex_jail :: hbsd_segvguard where
  "ex_jail = fst (snd (sysctl_pax_segvguard_maxcrashes False 0 (Some 2)
                         (pax_segvguard_init_prison False ex_prison0 ex_boot) ex_boot))"

definition ex_thread :: thread where
  "ex_thread = \<lparr>p_pid = 100, p_pax = 0x10, p_textvp = Some ex_vnode,
                cr_ruid = 1001, td_prison = ex_prison0\<rparr>"

definition ex_jailed :: thread where
  "ex_jailed = ex_thread\<lparr>p_pid := 200, td_prison := ex_jail\<rparr>"

definition ex_optin :: thread where
  "ex_optin = ex_thread\<lparr>td_prison := ex_prison0\<lparr>status := 1\<rparr>\<rparr>"

definition ex_identity :: identity where
  "ex_identity = (1001, 4242, ''/usr'')"

text \<open>The jailed thread crashes three times after boot.\<close>

definition ex_crash1 :: segvguard where
  "ex_crash1 =
     snd (pax_segvguard_segfault amd64_kconsts True ex_vnode ex_jailed ''sh'' ex_boot)"

definition ex_crash2 :: segvguard where
  "ex_crash2 =
     snd (pax_segvguard_segfault amd64_kconsts True ex_vnode ex_jailed ''sh'' ex_crash1)"

definition ex_crash3 :: segvguard where
  "ex_crash3 =
     snd (pax_segvguard_segfault amd64_kconsts True ex_vnode ex_jailed ''sh'' ex_crash2)"

text \<open>
  Two processes of the jail run the same binary as the same user and crash at the same
  time after boot: both look their record up before either inserts one.
\<close>

definition ex_jailed2 :: thread where
  "ex_jailed2 = ex_jailed\<lparr>p_pid := 201\<rparr>"

definition ex_race_looked_up :: segvguard where
  "ex_race_looked_up =
     snd (pax_segvguard_lookup amd64_kconsts ex_jailed2 ex_vnode
            (snd (pax_segvguard_lookup amd64_kconsts ex_jailed ex_vnode ex_boot)))"

definition ex_race :: segvguard where
  "ex_race =
     snd (pax_segvguard_add amd64_kconsts True ex_jailed2 ex_vnode
            (snd (pax_segvguard_add amd64_kconsts True ex_jailed ex_vnode ex_race_looked_up)))"

text \<open>
  One process crashes once; at its second crash the attributes of the binary cannot be
  read during the lookup and can be read again during the insert.
\<close>

definition ex_flaky :: segvguard where
  "ex_flaky =
     snd (pax_segvguard_segfault amd64_kconsts True ex_vnode
            (ex_jailed\<lparr>p_textvp := Some ex_vnode_noattr\<rparr>) ''sh'' ex_crash1)"


section \<open>Properties\<close>

subsection \<open>The concrete kernel\<close>

lemma amd64_consts_ok: "consts_ok amd64_kconsts"
  by (simp add: consts_ok_def amd64_kconsts_def)

lemma ex_boot_eq:
  "ex_boot = \<lparr>pax_segvguard_status = 2, pax_segvguard_expiry = 120,
      pax_segvguard_suspension = 600, pax_segvguard_maxcrashes = 5,
      pax_segvguard_hashtbl = replicate 512 \<lparr>lh_first = [], bucket_mtx = False\<rparr>,
      console = []\<rparr>"
  by (simp add: ex_boot_def pax_segvguard_sysinit_def amd64_kconsts_def
      pax_segvguard_hashsize_def)

lemma ex_prison0_eq:
  "ex_prison0 = \<lparr>status = 2, expiry = 120, suspension = 600, maxcrashes = 5\<rparr>"
  by (simp add: ex_prison0_def pax_segvguard_init_prison_def ex_boot_eq)

lemma ex_jail_eq:
  "ex_jail = \<lparr>status = 2, expiry = 120, suspension = 600, maxcrashes = 2\<rparr>"
  by (simp add: ex_jail_def sysctl_pax_segvguard_maxcrashes_def
      pax_segvguard_init_prison_def ex_prison0_eq)

subsection \<open>Policy resolver\<close>

lemma note_bits:
  assumes "consts_ok c"
  shows "(0 OR PAX_NOTE_SEGVGUARD c) AND NOT (PAX_NOTE_NOSEGVGUARD c) = PAX_NOTE_SEGVGUARD c"
    and "(0 AND NOT (PAX_NOTE_SEGVGUARD c)) OR PAX_NOTE_NOSEGVGUARD c = PAX_NOTE_NOSEGVGUARD c"
    and "PAX_NOTE_SEGVGUARD c \<noteq> PAX_NOTE_NOSEGVGUARD c"
proof -
  from assms have d: "PAX_NOTE_SEGVGUARD c AND PAX_NOTE_NOSEGVGUARD c = 0"
    and nz: "PAX_NOTE_SEGVGUARD c \<noteq> 0"
    by (simp_all add: consts_ok_def)
  have "PAX_NOTE_SEGVGUARD c AND NOT (PAX_NOTE_NOSEGVGUARD c) =
        PAX_NOTE_SEGVGUARD c AND NOT (PAX_NOTE_SEGVGUARD c AND PAX_NOTE_NOSEGVGUARD c)"
    by (simp add: bit_eq_iff bit_simps) blast
  then show "(0 OR PAX_NOTE_SEGVGUARD c) AND NOT (PAX_NOTE_NOSEGVGUARD c) = PAX_NOTE_SEGVGUARD c"
    by (simp add: d)
  show "(0 AND NOT (PAX_NOTE_SEGVGUARD c)) OR PAX_NOTE_NOSEGVGUARD c = PAX_NOTE_NOSEGVGUARD c"
    by simp
  show "PAX_NOTE_SEGVGUARD c \<noteq> PAX_NOTE_NOSEGVGUARD c"
    using d nz by auto
qed

text \<open>
  Claim C2, as amended. For every scope mode, every answer of the attribute retrieval
  and every requested override, the resolver returns exactly the flag of this table:
  disabled gives guard-inactive; forced gives guard-active; opt-in gives guard-active
  iff the attributes of the binary cannot be read, or the binary is set-user-id or
  set-group-id, or the override asks for the guard, else guard-inactive; opt-out gives
  guard-active unless the override asks for no guard; any other mode value gives
  guard-active. Only the opt-in row looks at the binary.
\<close>

theorem C2_setup_flags_decision_table:
  assumes "consts_ok c"
  shows "pax_segvguard_setup_flags c imgp td mode =
     (if status (td_prison td) = PAX_FEATURE_DISABLED c then PAX_NOTE_NOSEGVGUARD c
      else if status (td_prison td) = PAX_FEATURE_FORCE_ENABLED c then PAX_NOTE_SEGVGUARD c
      else if status (td_prison td) = PAX_FEATURE_OPTIN c then
        (if vop_getattr (vp imgp) = None \<or>
            (\<exists>vap. vop_getattr (vp imgp) = Some vap \<and>
                   va_mode vap AND (S_ISUID c OR S_ISGID c) \<noteq> 0) \<or>
            mode AND PAX_NOTE_SEGVGUARD c \<noteq> 0
         then PAX_NOTE_SEGVGUARD c else PAX_NOTE_NOSEGVGUARD c)
      else if status (td_prison td) = PAX_FEATURE_OPTOUT c then
        (if mode AND PAX_NOTE_NOSEGVGUARD c \<noteq> 0
         then PAX_NOTE_NOSEGVGUARD c else PAX_NOTE_SEGVGUARD c)
      else PAX_NOTE_SEGVGUARD c)"
  using note_bits(1,2)[OF assms]
  by (cases "vop_getattr (vp imgp)") (simp_all add: pax_segvguard_setup_flags_def)

theorem C2_setup_flags_decision_table_witness:
  "consts_ok amd64_kconsts \<and>
   pax_segvguard_setup_flags amd64_kconsts \<lparr>vp = ex_vnode\<rparr> ex_optin 0 = 0x20 \<and>
   pax_segvguard_setup_flags amd64_kconsts \<lparr>vp = ex_vnode\<rparr> ex_optin 0x10 = 0x10 \<and>
   pax_segvguard_setup_flags amd64_kconsts \<lparr>vp = ex_vnode_noattr\<rparr> ex_optin 0 = 0x10 \<and>
   pax_segvguard_setup_flags amd64_kconsts \<lparr>vp = ex_vnode_noattr\<rparr> ex_thread 0x20 = 0x20"
proof -
  have st: "status (td_prison ex_optin) = 1" "status (td_prison ex_thread) = 2"
    by (simp_all add: ex_optin_def ex_thread_def ex_prison0_eq)
  show ?thesis
    using C2_setup_flags_decision_table [where td = ex_optin and mode = 0
        and imgp = "\<lparr>vp = ex_vnode\<rparr>", OF amd64_consts_ok]
      C2_setup_flags_decision_table [where td = ex_optin and mode = "0x10"
        and imgp = "\<lparr>vp = ex_vnode\<rparr>", OF amd64_consts_ok]
      C2_setup_flags_decision_table [where td = ex_optin and mode = 0
        and imgp = "\<lparr>vp = ex_vnode_noattr\<rparr>", OF amd64_consts_ok]
      C2_setup_flags_decision_table [where td = ex_thread and mode = "0x20"
        and imgp = "\<lparr>vp = ex_vnode_noattr\<rparr>", OF amd64_consts_ok]
      amd64_consts_ok
    by (simp add: st amd64_kconsts_def ex_vnode_def ex_vnode_noattr_def)
qed

text \<open>
  The table as the claim words it fails in its opt-in row: the attributes of the
  binary cannot be read, so that nothing shows it privilege-elevated, the override
  bit for the guard is clear, and the resolver returns guard-active.
\<close>

theorem C2_optin_unreadable_counterexample:
  "status (td_prison ex_optin) = PAX_FEATURE_OPTIN amd64_kconsts \<and>
   vop_getattr (vp \<lparr>vp = ex_vnode_noattr\<rparr>) = None \<and>
   (0 :: pax_flag_t) AND PAX_NOTE_SEGVGUARD amd64_kconsts = 0 \<and>
   pax_segvguard_setup_flags amd64_kconsts \<lparr>vp = ex_vnode_noattr\<rparr> ex_optin 0 =
     PAX_NOTE_SEGVGUARD amd64_kconsts \<and>
   PAX_NOTE_SEGVGUARD amd64_kconsts \<noteq> PAX_NOTE_NOSEGVGUARD amd64_kconsts"
  by (simp add: pax_segvguard_setup_flags_def ex_optin_def ex_vnode_noattr_def
      amd64_kconsts_def)

text \<open>
  Claim C4, as amended. In opt-in mode a failure to read the binary's attributes makes
  the resolver return guard-active, whatever the override asks: the failure is treated
  like a privilege-elevated binary, not like an ordinary one. The resolver still
  returns a flag value, so execution setup goes on.
\<close>

theorem C4_optin_getattr_failure_guard_active:
  assumes "consts_ok c" and "status (td_prison td) = PAX_FEATURE_OPTIN c"
    and "vop_getattr (vp imgp) = None"
  shows "pax_segvguard_setup_flags c imgp td mode = PAX_NOTE_SEGVGUARD c \<and>
         pax_segvguard_setup_flags c imgp td mode \<noteq> PAX_NOTE_NOSEGVGUARD c"
proof -
  from assms(1,2) have "status (td_prison td) \<noteq> PAX_FEATURE_DISABLED c"
    and "status (td_prison td) \<noteq> PAX_FEATURE_FORCE_ENABLED c"
    by (auto simp: consts_ok_def)
  then show ?thesis
    using assms(2,3) note_bits[OF assms(1)]
    by (simp add: pax_segvguard_setup_flags_def)
qed

theorem C4_optin_getattr_failure_guard_active_witness:
  "consts_ok amd64_kconsts \<and>
   status (td_prison ex_optin) = PAX_FEATURE_OPTIN amd64_kconsts \<and>
   vop_getattr (vp \<lparr>vp = ex_vnode_noattr\<rparr>) = None \<and>
   pax_segvguard_setup_flags amd64_kconsts \<lparr>vp = ex_vnode_noattr\<rparr> ex_optin 0 = 0x10"
proof -
  have st: "status (td_prison ex_optin) = PAX_FEATURE_OPTIN amd64_kconsts"
    by (simp add: ex_optin_def amd64_kconsts_def)
  have g: "vop_getattr (vp \<lparr>vp = ex_vnode_noattr\<rparr>) = None"
    by (simp add: ex_vnode_noattr_def)
  show ?thesis
    using C4_optin_getattr_failure_guard_active [where mode = 0, OF amd64_consts_ok st g]
      amd64_consts_ok st g
    by (simp add: amd64_kconsts_def)
qed

text \<open>
  The claim as written fails: an opt-in scope, a binary whose attributes cannot be
  read, no override bit set, and the resolver returns guard-active (\<open>0x10\<close>), not
  guard-inactive (\<open>0x20\<close>).
\<close>

theorem C4_getattr_failure_counterexample:
  "status (td_prison ex_optin) = PAX_FEATURE_OPTIN amd64_kconsts \<and>
   vop_getattr (vp \<lparr>vp = ex_vnode_noattr\<rparr>) = None \<and>
   (0 :: pax_flag_t) AND PAX_NOTE_SEGVGUARD amd64_kconsts = 0 \<and>
   pax_segvguard_setup_flags amd64_kconsts \<lparr>vp = ex_vnode_noattr\<rparr> ex_optin 0 \<noteq>
     PAX_NOTE_NOSEGVGUARD amd64_kconsts"
  by (simp add: pax_segvguard_setup_flags_def ex_optin_def ex_vnode_noattr_def
      amd64_kconsts_def)

subsection \<open>Mode validation\<close>

text \<open>
  Claim C7. Mode validation returns each of the four recognised modes unchanged and
  returns forced for every other value; initialisation applies the same coercion to
  the boot-time status, and prints a warning when it does.
\<close>

theorem C7_validate_flags_coerces:
  "pax_segvguard_validate_flags c flags =
     (if flags \<in> {PAX_FEATURE_DISABLED c, PAX_FEATURE_OPTIN c,
                   PAX_FEATURE_OPTOUT c, PAX_FEATURE_FORCE_ENABLED c}
      then flags else PAX_FEATURE_FORCE_ENABLED c) \<and>
   pax_segvguard_status (pax_segvguard_sysinit c bootverbose s) =
     pax_segvguard_validate_flags c (pax_segvguard_status s) \<and>
   (pax_segvguard_status s \<notin> {PAX_FEATURE_DISABLED c, PAX_FEATURE_OPTIN c,
                   PAX_FEATURE_OPTOUT c, PAX_FEATURE_FORCE_ENABLED c} \<longrightarrow>
      MsgInvalidStatus (pax_segvguard_status s) \<in>
        set (console (pax_segvguard_sysinit c bootverbose s)))"
  by (auto simp: pax_segvguard_validate_flags_def pax_segvguard_sysinit_def printf_def Let_def)

theorem C7_validate_flags_coerces_witness:
  "pax_segvguard_validate_flags amd64_kconsts 7 = 3 \<and>
   pax_segvguard_validate_flags amd64_kconsts 1 = 1 \<and>
   pax_segvguard_status (pax_segvguard_sysinit amd64_kconsts False
      (ex_boot\<lparr>pax_segvguard_status := 7\<rparr>)) = 3 \<and>
   MsgInvalidStatus 7 \<in> set (console (pax_segvguard_sysinit amd64_kconsts False
      (ex_boot\<lparr>pax_segvguard_status := 7\<rparr>)))"
  using C7_validate_flags_coerces [of amd64_kconsts 7 False "ex_boot\<lparr>pax_segvguard_status := 7\<rparr>"]
    C7_validate_flags_coerces [of amd64_kconsts 1 False "ex_boot\<lparr>pax_segvguard_status := 7\<rparr>"]
  by (simp add: amd64_kconsts_def)

subsection \<open>The gate of the two entry points\<close>

lemma lookup_p_pax:
  "pax_segvguard_lookup c (td\<lparr>p_pax := f\<rparr>) vn s = pax_segvguard_lookup c td vn s"
  by (simp add: pax_segvguard_lookup_def split: option.split)

lemma add_p_pax:
  "pax_segvguard_add c m (td\<lparr>p_pax := f\<rparr>) vn s = pax_segvguard_add c m td vn s"
  by (simp add: pax_segvguard_add_def split: option.split)

lemma active_td_exact: "pax_segvguard_active_td c (td\<lparr>p_pax := PAX_NOTE_SEGVGUARD c\<rparr>)"
  by (simp add: pax_segvguard_active_td_def pax_get_flags_td_def)

lemma segfault_active_only:
  "pax_segvguard_active_td c td \<Longrightarrow>
   pax_segvguard_segfault c m vn_add td name s =
   pax_segvguard_segfault c m vn_add (td\<lparr>p_pax := PAX_NOTE_SEGVGUARD c\<rparr>) name s"
  by (simp add: pax_segvguard_segfault_def active_td_exact lookup_p_pax add_p_pax Let_def
      split: option.split prod.split)

lemma check_active_only:
  "pax_segvguard_active_td c td \<Longrightarrow>
   pax_segvguard_check c td v name s =
   pax_segvguard_check c (td\<lparr>p_pax := PAX_NOTE_SEGVGUARD c\<rparr>) v name s"
  by (simp add: pax_segvguard_check_def active_td_exact lookup_p_pax
      split: option.split prod.split)

text \<open>
  Claim C9. When the policy flags of the thread contain neither the guard-active bit
  nor the guard-inactive bit, or contain both, the guard counts as active, and both
  entry points do exactly what they do for a thread whose flags are the guard-active
  bit alone.
\<close>

theorem C9_active_td_neither_or_both:
  assumes "consts_ok c"
    and "(p_pax td AND PAX_NOTE_SEGVGUARD c = 0 \<and> p_pax td AND PAX_NOTE_NOSEGVGUARD c = 0) \<or>
         (p_pax td AND PAX_NOTE_SEGVGUARD c = PAX_NOTE_SEGVGUARD c \<and>
          p_pax td AND PAX_NOTE_NOSEGVGUARD c = PAX_NOTE_NOSEGVGUARD c)"
  shows "pax_segvguard_active_td c td \<and>
         pax_segvguard_segfault c malloc_ok vn_add td name s =
           pax_segvguard_segfault c malloc_ok vn_add
             (td\<lparr>p_pax := PAX_NOTE_SEGVGUARD c\<rparr>) name s \<and>
         pax_segvguard_check c td v name s =
           pax_segvguard_check c (td\<lparr>p_pax := PAX_NOTE_SEGVGUARD c\<rparr>) v name s"
proof -
  from assms(1) have nz: "PAX_NOTE_SEGVGUARD c \<noteq> 0" "PAX_NOTE_NOSEGVGUARD c \<noteq> 0"
    by (simp_all add: consts_ok_def)
  from assms(2) nz have act: "pax_segvguard_active_td c td"
    by (auto simp: pax_segvguard_active_td_def pax_get_flags_td_def)
  with segfault_active_only check_active_only show ?thesis by blast
qed

theorem C9_active_td_neither_or_both_witness:
  "consts_ok amd64_kconsts \<and>
   p_pax (ex_thread\<lparr>p_pax := 0\<rparr>) AND PAX_NOTE_SEGVGUARD amd64_kconsts = 0 \<and>
   p_pax (ex_thread\<lparr>p_pax := 0\<rparr>) AND PAX_NOTE_NOSEGVGUARD amd64_kconsts = 0 \<and>
   pax_segvguard_active_td amd64_kconsts (ex_thread\<lparr>p_pax := 0\<rparr>) \<and>
   p_pax (ex_thread\<lparr>p_pax := 0x30\<rparr>) AND PAX_NOTE_SEGVGUARD amd64_kconsts =
     PAX_NOTE_SEGVGUARD amd64_kconsts \<and>
   p_pax (ex_thread\<lparr>p_pax := 0x30\<rparr>) AND PAX_NOTE_NOSEGVGUARD amd64_kconsts =
     PAX_NOTE_NOSEGVGUARD amd64_kconsts \<and>
   pax_segvguard_active_td amd64_kconsts (ex_thread\<lparr>p_pax := 0x30\<rparr>)"
proof -
  have n: "p_pax (ex_thread\<lparr>p_pax := 0\<rparr>) AND PAX_NOTE_SEGVGUARD amd64_kconsts = 0 \<and>
           p_pax (ex_thread\<lparr>p_pax := 0\<rparr>) AND PAX_NOTE_NOSEGVGUARD amd64_kconsts = 0"
    by simp
  have b: "p_pax (ex_thread\<lparr>p_pax := 0x30\<rparr>) AND PAX_NOTE_SEGVGUARD amd64_kconsts =
             PAX_NOTE_SEGVGUARD amd64_kconsts \<and>
           p_pax (ex_thread\<lparr>p_pax := 0x30\<rparr>) AND PAX_NOTE_NOSEGVGUARD amd64_kconsts =
             PAX_NOTE_NOSEGVGUARD amd64_kconsts"
    by (simp add: amd64_kconsts_def)
  show ?thesis
    using C9_active_td_neither_or_both [OF amd64_consts_ok disjI1 [OF n]]
      C9_active_td_neither_or_both [OF amd64_consts_ok disjI2 [OF b]]
      amd64_consts_ok n b
    by blast
qed

subsection \<open>The record table\<close>

lemma map_upd_same: "f y = f (xs ! i) \<Longrightarrow> map f (xs[i := y]) = map f xs"
  by (induction xs arbitrary: i) (auto split: nat.splits)

lemma records_mtx_lock:
  "map lh_first (pax_segvguard_hashtbl (mtx_lock b s)) = map lh_first (pax_segvguard_hashtbl s)"
  by (simp add: mtx_lock_def map_upd_same)

lemma records_mtx_unlock:
  "map lh_first (pax_segvguard_hashtbl (mtx_unlock b s)) = map lh_first (pax_segvguard_hashtbl s)"
  by (simp add: mtx_unlock_def map_upd_same)

lemma tbl_printf: "pax_segvguard_hashtbl (printf m s) = pax_segvguard_hashtbl s"
  by (simp add: printf_def)

lemma records_lookup:
  "map lh_first (pax_segvguard_hashtbl (snd (pax_segvguard_lookup c td vn s))) =
   map lh_first (pax_segvguard_hashtbl s)"
  by (simp add: pax_segvguard_lookup_def Let_def PAX_SEGVGUARD_LOCK_def PAX_SEGVGUARD_UNLOCK_def
      records_mtx_lock records_mtx_unlock tbl_printf split: option.split)

lemma records_check:
  "map lh_first (pax_segvguard_hashtbl (snd (pax_segvguard_check c td v name s))) =
   map lh_first (pax_segvguard_hashtbl s)"
proof (cases "pax_segvguard_active_td c td")
  case False
  then show ?thesis by (simp add: pax_segvguard_check_def)
next
  case act: True
  show ?thesis
  proof (cases v)
    case None
    with act show ?thesis by (simp add: pax_segvguard_check_def)
  next
    case (Some vn)
    obtain r s1 where l: "pax_segvguard_lookup c td vn s = (r, s1)"
      by (cases "pax_segvguard_lookup c td vn s")
    from records_lookup [of c td vn s] l
    have "map lh_first (pax_segvguard_hashtbl s1) = map lh_first (pax_segvguard_hashtbl s)"
      by simp
    with act Some l show ?thesis
      by (simp add: pax_segvguard_check_def PAX_SEGVGUARD_UNLOCK_def records_mtx_unlock
          tbl_printf split: option.split)
  qed
qed

lemma mtx_unlock_lock:
  "b < length (pax_segvguard_hashtbl s) \<Longrightarrow> \<not> bucket_mtx (pax_segvguard_hashtbl s ! b) \<Longrightarrow>
   mtx_unlock b (mtx_lock b s) = s"
  by (simp add: mtx_unlock_def mtx_lock_def list_update_same_conv)

lemma mtx_unlock_printf_lock:
  "b < length (pax_segvguard_hashtbl s) \<Longrightarrow> \<not> bucket_mtx (pax_segvguard_hashtbl s ! b) \<Longrightarrow>
   mtx_unlock b (printf m (mtx_lock b s)) = printf m s"
  by (simp add: mtx_unlock_def mtx_lock_def printf_def list_update_same_conv)

lemma hash_key: "PAX_SEGVGUARD_HASH c se = bucket_of c (se_key se)"
  by (simp add: bucket_of_def se_key_def PAX_SEGVGUARD_HASH_def)

lemma bucket_of_lt: "bucket_of c k < pax_segvguard_hashsize"
  by (cases k) (simp add: bucket_of_def PAX_SEGVGUARD_HASH_def pax_segvguard_hashsize_def Let_def)

lemma match_lt: "LIST_FOREACH_match n f m u xs = Some i \<Longrightarrow> i < length xs"
proof (induction xs arbitrary: i)
  case Nil
  then show ?case by simp
next
  case (Cons se rest)
  show ?case
  proof (cases "ucast (se_inode se) = f \<and> strncmp_eq m (se_mntpoint se) n \<and> u = se_uid se")
    case True
    with Cons.prems show ?thesis by simp
  next
    case False
    with Cons.prems obtain j where "LIST_FOREACH_match n f m u rest = Some j" "i = Suc j"
      by auto
    with Cons.IH [of j] show ?thesis by simp
  qed
qed

text \<open>
  What the loop finds is the first record of the identity searched for, provided the
  file id fits the \<^verbatim>\<open>ino_t\<close> of the entries. A file id that does not fit is never
  found: the stored inode widens to less than \<open>2 ^ 32\<close>.
\<close>

lemma match_Some:
  assumes "\<forall>se \<in> set xs. length (se_mntpoint se) \<le> n" and "length m \<le> n"
    and "LIST_FOREACH_match n f m u xs = Some i"
  shows "se_key (xs ! i) = (u, ucast f, m)"
  using assms
proof (induction xs arbitrary: i)
  case Nil
  then show ?case by simp
next
  case (Cons se rest)
  show ?case
  proof (cases "ucast (se_inode se) = f \<and> strncmp_eq m (se_mntpoint se) n \<and> u = se_uid se")
    case True
    then have "(ucast f :: ino_t) = se_inode se"
      by (auto simp: ucast_down_ucast_id is_down)
    with True Cons.prems show ?thesis
      by (auto simp: se_key_def strncmp_eq_def)
  next
    case False
    with Cons.prems obtain j where "LIST_FOREACH_match n f m u rest = Some j" "i = Suc j"
      by auto
    with Cons.IH [of j] Cons.prems show ?thesis by simp
  qed
qed

lemma match_None:
  assumes "\<forall>se \<in> set xs. length (se_mntpoint se) \<le> n" and "length m \<le> n"
    and "LIST_FOREACH_match n f m u xs = None" and "f = ucast (ucast f :: ino_t)"
  shows "(u, ucast f, m) \<notin> se_key ` set xs"
  using assms
proof (induction xs)
  case Nil
  then show ?case by simp
next
  case (Cons se rest)
  from Cons.prems(3) have no: "\<not> (ucast (se_inode se) = f \<and>
      strncmp_eq m (se_mntpoint se) n \<and> u = se_uid se)"
    and rest: "LIST_FOREACH_match n f m u rest = None"
    by (auto split: if_splits)
  have "se_key se \<noteq> (u, ucast f, m)"
  proof
    assume "se_key se = (u, ucast f, m)"
    then have "se_uid se = u" "se_inode se = ucast f" "se_mntpoint se = m"
      by (simp_all add: se_key_def)
    with no Cons.prems(4) show False by (simp add: strncmp_eq_def)
  qed
  with Cons.IH rest Cons.prems show ?case by simp
qed

lemma match_never:
  assumes "f \<noteq> ucast (ucast f :: ino_t)"
  shows "LIST_FOREACH_match n f m u xs = None"
proof (induction xs)
  case Nil
  show ?case by simp
next
  case (Cons se rest)
  have "ucast (se_inode se) \<noteq> f"
  proof
    assume "ucast (se_inode se) = f"
    then have "ucast (ucast f :: ino_t) = f"
      by (auto simp: ucast_down_ucast_id is_down)
    with assms show False by simp
  qed
  with Cons.IH show ?case by simp
qed


lemma filter_concat_nil:
  "(\<forall>ys \<in> set xss. filter P ys = []) \<Longrightarrow> filter P (concat xss) = []"
  by (induction xss) auto

lemma filter_concat_single:
  "b < length xss \<Longrightarrow> (\<forall>j < length xss. j \<noteq> b \<longrightarrow> filter P (xss ! j) = []) \<Longrightarrow>
   filter P (concat xss) = filter P (xss ! b)"
proof (induction xss arbitrary: b)
  case Nil
  then show ?case by simp
next
  case (Cons ys xss)
  show ?case
  proof (cases b)
    case 0
    have "\<forall>zs \<in> set xss. filter P zs = []"
    proof
      fix zs assume "zs \<in> set xss"
      then obtain j where "j < length xss" "xss ! j = zs" by (auto simp: in_set_conv_nth)
      with Cons.prems(2) [rule_format, of "Suc j"] 0 show "filter P zs = []" by simp
    qed
    then have "filter P (concat xss) = []" by (rule filter_concat_nil)
    with 0 show ?thesis by simp
  next
    case (Suc b')
    from Cons.prems(2) [rule_format, of 0] Suc have h: "filter P ys = []" by simp
    have "filter P (concat xss) = filter P (xss ! b')"
    proof (rule Cons.IH)
      show "b' < length xss" using Cons.prems(1) Suc by simp
      show "\<forall>j<length xss. j \<noteq> b' \<longrightarrow> filter P (xss ! j) = []"
        using Cons.prems(2) [rule_format, of "Suc j" for j] Suc by auto
    qed
    with h Suc show ?thesis by simp
  qed
qed

text \<open>The records of an identity are those of its bucket.\<close>

lemma records_of_bucket:
  assumes "table_ok c s"
  shows "records_of k s =
         filter (\<lambda>se. se_key se = k) (lh_first (pax_segvguard_hashtbl s ! bucket_of c k))"
proof -
  let ?tbl = "pax_segvguard_hashtbl s"
  let ?P = "\<lambda>se. se_key se = k"
  from assms have len: "length ?tbl = pax_segvguard_hashsize"
    and ok: "\<And>b. b < pax_segvguard_hashsize \<Longrightarrow> bucket_ok c b (?tbl ! b)"
    by (simp_all add: table_ok_def)
  have b: "bucket_of c k < length (map lh_first ?tbl)"
    using len bucket_of_lt by simp
  have other: "\<forall>j < length (map lh_first ?tbl). j \<noteq> bucket_of c k \<longrightarrow>
                 filter ?P (map lh_first ?tbl ! j) = []"
  proof (intro allI impI)
    fix j assume j: "j < length (map lh_first ?tbl)" and ne: "j \<noteq> bucket_of c k"
    from j len have jl: "j < pax_segvguard_hashsize" by simp
    have "\<forall>se \<in> set (lh_first (?tbl ! j)). se_key se \<noteq> k"
    proof
      fix se assume "se \<in> set (lh_first (?tbl ! j))"
      with ok [OF jl] have "PAX_SEGVGUARD_HASH c se = j" by (simp add: bucket_ok_def)
      with ne show "se_key se \<noteq> k" by (auto simp: hash_key)
    qed
    then show "filter ?P (map lh_first ?tbl ! j) = []"
      using j by (simp add: filter_empty_conv)
  qed
  from filter_concat_single [OF b other] b show ?thesis
    by (simp add: records_of_def records_def)
qed

lemma records_of_updated_bucket:
  assumes "table_ok c s'" and "b = bucket_of c k"
    and "pax_segvguard_hashtbl s' = tbl[b := bk]" and "b < length tbl"
  shows "records_of k s' = filter (\<lambda>se. se_key se = k) (lh_first bk)"
  using records_of_bucket [OF assms(1), of k] assms(2-4) by simp

lemma identity_cases:
  assumes "identity_of c td vn = Some k"
  obtains vat where "\<not> (\<not> vop_islocked_exclusive vn \<and> vn_lock_error vn)"
    and "vop_getattr vn = Some vat"
    and "k = (cr_ruid td, ucast (va_fileid vat), strncpy (f_mntonname vn) (MNAMELEN c))"
  using assms by (auto simp: identity_of_def split: if_splits option.splits)

lemma identity_mnt_len:
  "identity_of c td vn = Some (u, f, m) \<Longrightarrow> length m \<le> MNAMELEN c"
  by (auto simp: identity_of_def strncpy_def split: if_splits option.splits)

lemma lookup_ok:
  assumes "table_ok c s" and "identity_of c td vn = Some (u, f, m)"
    and "vop_getattr vn = Some vat"
  shows "pax_segvguard_lookup c td vn s =
     (case LIST_FOREACH_match (MNAMELEN c) (va_fileid vat) m u
             (lh_first (pax_segvguard_hashtbl s ! bucket_of c (u, f, m))) of
        Some i \<Rightarrow> (Some (bucket_of c (u, f, m), i), mtx_lock (bucket_of c (u, f, m)) s)
      | None \<Rightarrow> (None, s))"
proof -
  let ?b = "bucket_of c (u, f, m)"
  from assms(1) have len: "?b < length (pax_segvguard_hashtbl s)"
    and free: "\<not> bucket_mtx (pax_segvguard_hashtbl s ! ?b)"
    using bucket_of_lt [of c "(u, f, m)"] by (simp_all add: table_ok_def bucket_ok_def)
  have nth: "lh_first (pax_segvguard_hashtbl (mtx_lock ?b s) ! ?b) =
             lh_first (pax_segvguard_hashtbl s ! ?b)"
    using len by (simp add: mtx_lock_def)
  from assms(2,3) show ?thesis
    using mtx_unlock_lock [OF len free] nth
    by (auto simp: pax_segvguard_lookup_def identity_of_def Let_def bucket_of_def
        PAX_SEGVGUARD_LOCK_def PAX_SEGVGUARD_UNLOCK_def
        split: if_splits option.splits)
qed

lemma lookup_none:
  assumes "identity_of c td vn = None"
  shows "fst (pax_segvguard_lookup c td vn s) = None \<and>
         pax_segvguard_hashtbl (snd (pax_segvguard_lookup c td vn s)) = pax_segvguard_hashtbl s"
  using assms
  by (auto simp: pax_segvguard_lookup_def identity_of_def tbl_printf split: if_splits option.splits)

lemma lookup_none_tbl:
  assumes "table_ok c s" and "fst (pax_segvguard_lookup c td vn s) = None"
  shows "pax_segvguard_hashtbl (snd (pax_segvguard_lookup c td vn s)) = pax_segvguard_hashtbl s"
proof (cases "identity_of c td vn")
  case None
  then show ?thesis by (simp add: lookup_none)
next
  case (Some k)
  obtain u f m where k: "k = (u, f, m)" by (cases k)
  from Some obtain vat where "vop_getattr vn = Some vat" by (rule identity_cases)
  from assms(2) lookup_ok [OF assms(1) Some [unfolded k] this] show ?thesis
    by (simp split: option.splits)
qed

lemma hash_upd_ncrashes: "PAX_SEGVGUARD_HASH c (e\<lparr>se_ncrashes := n\<rparr>) = PAX_SEGVGUARD_HASH c e"
  by (simp add: PAX_SEGVGUARD_HASH_def)

lemma hash_upd_callout: "PAX_SEGVGUARD_HASH c (e\<lparr>se_callout := t\<rparr>) = PAX_SEGVGUARD_HASH c e"
  by (simp add: PAX_SEGVGUARD_HASH_def)

lemma entryhead_upd_all:
  "(bk :: pax_segvguard_entryhead)\<lparr>lh_first := l, bucket_mtx := x\<rparr> =
   \<lparr>lh_first = l, bucket_mtx = x\<rparr>"
  by (cases bk) simp

text \<open>What the check does: the process-wide threshold decides.\<close>

lemma check_ok:
  assumes "table_ok c s" and "pax_segvguard_active_td c td"
    and "identity_of c td vn = Some (u, f, m)" and "vop_getattr vn = Some vat"
  shows "pax_segvguard_check c td (Some vn) name s =
     (case LIST_FOREACH_match (MNAMELEN c) (va_fileid vat) m u
             (lh_first (pax_segvguard_hashtbl s ! bucket_of c (u, f, m))) of
        None \<Rightarrow> (ESUCCESS, s)
      | Some i \<Rightarrow>
          if se_ncrashes (lh_first (pax_segvguard_hashtbl s ! bucket_of c (u, f, m)) ! i) \<ge>
             (word_of_int (pax_segvguard_maxcrashes s) :: size_t)
          then (EPERM, printf (MsgPreventing name (p_pid td)) s)
          else (ESUCCESS, s))"
proof -
  let ?b = "bucket_of c (u, f, m)"
  let ?xs = "lh_first (pax_segvguard_hashtbl s ! ?b)"
  from assms(1) have len: "?b < length (pax_segvguard_hashtbl s)"
    and bok: "bucket_ok c ?b (pax_segvguard_hashtbl s ! ?b)"
    using bucket_of_lt [of c "(u, f, m)"] by (simp_all add: table_ok_def)
  from bok have free: "\<not> bucket_mtx (pax_segvguard_hashtbl s ! ?b)"
    by (simp add: bucket_ok_def)
  show ?thesis
  proof (cases "LIST_FOREACH_match (MNAMELEN c) (va_fileid vat) m u ?xs")
    case None
    with assms(2) lookup_ok [OF assms(1,3,4)] show ?thesis
      by (simp add: pax_segvguard_check_def)
  next
    case (Some i)
    from match_lt [OF Some] have i: "i < length ?xs" .
    then have "?xs ! i \<in> set ?xs" by simp
    with bok have h: "PAX_SEGVGUARD_HASH c (?xs ! i) = ?b" by (simp add: bucket_ok_def)
    have at: "se_at (mtx_lock ?b s) (?b, i) = ?xs ! i"
      using len by (simp add: se_at_def mtx_lock_def)
    have mc: "pax_segvguard_maxcrashes (mtx_lock ?b s) = pax_segvguard_maxcrashes s"
      by (simp add: mtx_lock_def)
    from assms(2) lookup_ok [OF assms(1,3,4)] Some show ?thesis
      by (simp add: pax_segvguard_check_def at mc h PAX_SEGVGUARD_UNLOCK_def
          mtx_unlock_lock [OF len free] mtx_unlock_printf_lock [OF len free])
  qed
qed

text \<open>
  What a crash report does when its lookup finds a record: the count goes up by one,
  and when it has reached the process-wide threshold the countdown is set to the
  suspension time of the prison.
\<close>

lemma segfault_found:
  assumes "table_ok c s" and "pax_segvguard_active_td c td" and "p_textvp td = Some vn"
    and "identity_of c td vn = Some (u, f, m)" and "vop_getattr vn = Some vat"
    and "LIST_FOREACH_match (MNAMELEN c) (va_fileid vat) m u
           (lh_first (pax_segvguard_hashtbl s ! bucket_of c (u, f, m))) = Some i"
  shows "pax_segvguard_segfault c malloc_ok vn_add td name s =
     (let b = bucket_of c (u, f, m);
          xs = lh_first (pax_segvguard_hashtbl s ! b);
          n = se_ncrashes (xs ! i) + 1
      in (ESUCCESS,
          if n \<ge> (word_of_int (pax_segvguard_maxcrashes s) :: size_t)
          then s\<lparr>pax_segvguard_hashtbl := (pax_segvguard_hashtbl s)
                   [b := \<lparr>lh_first = xs[i := (xs ! i)\<lparr>se_ncrashes := n,
                             se_callout := Some (int_mul (suspension (td_prison td)) (hz c))\<rparr>],
                          bucket_mtx = False\<rparr>],
                 console := console s @
                   [MsgSuspending name (p_pid td) (pax_segvguard_suspension s) n]\<rparr>
          else s\<lparr>pax_segvguard_hashtbl := (pax_segvguard_hashtbl s)
                   [b := \<lparr>lh_first = xs[i := (xs ! i)\<lparr>se_ncrashes := n\<rparr>],
                          bucket_mtx = False\<rparr>]\<rparr>))"
proof -
  let ?b = "bucket_of c (u, f, m)"
  let ?xs = "lh_first (pax_segvguard_hashtbl s ! ?b)"
  from assms(1) have len: "?b < length (pax_segvguard_hashtbl s)"
    and bok: "bucket_ok c ?b (pax_segvguard_hashtbl s ! ?b)"
    using bucket_of_lt [of c "(u, f, m)"] by (simp_all add: table_ok_def)
  from match_lt [OF assms(6)] have i: "i < length ?xs" .
  then have "?xs ! i \<in> set ?xs" by simp
  with bok have h: "PAX_SEGVGUARD_HASH c (?xs ! i) = ?b" by (simp add: bucket_ok_def)
  from assms(2,3) lookup_ok [OF assms(1,4,5)] assms(6) len i show ?thesis
    by (simp add: pax_segvguard_segfault_def Let_def se_update_def se_at_def mtx_lock_def
        mtx_unlock_def callout_reset_def printf_def PAX_SEGVGUARD_UNLOCK_def
        hash_upd_ncrashes hash_upd_callout h entryhead_upd_all)
qed

text \<open>
  What the insert does when the allocation succeeds and the identity can be derived:
  a record with count 1 goes to the head of the bucket, unsearched.
\<close>

lemma add_ok:
  assumes "table_ok c s" and "identity_of c td vn = Some (u, f, m)"
  shows "pax_segvguard_add c True td vn s =
     (let b = bucket_of c (u, f, m)
      in (Some (b, 0),
          s\<lparr>pax_segvguard_hashtbl := (pax_segvguard_hashtbl s)
               [b := \<lparr>lh_first =
                         \<lparr>se_uid = u, se_inode = f, se_mntpoint = m, se_ncrashes = 1,
                          se_callout = Some (int_mul (expiry (td_prison td)) (hz c))\<rparr> #
                         lh_first (pax_segvguard_hashtbl s ! b),
                      bucket_mtx = False\<rparr>]\<rparr>))"
proof -
  let ?b = "bucket_of c (u, f, m)"
  from assms(1) have len: "?b < length (pax_segvguard_hashtbl s)"
    using bucket_of_lt [of c "(u, f, m)"] by (simp add: table_ok_def)
  from assms(2) obtain vat where
    lk: "\<not> (\<not> vop_islocked_exclusive vn \<and> vn_lock_error vn)"
    and ga: "vop_getattr vn = Some vat"
    and k: "(u, f, m) =
      (cr_ruid td, ucast (va_fileid vat), strncpy (f_mntonname vn) (MNAMELEN c))"
    by (rule identity_cases)
  have h: "PAX_SEGVGUARD_HASH c \<lparr>se_uid = cr_ruid td, se_inode = ucast (va_fileid vat),
             se_mntpoint = strncpy (f_mntonname vn) (MNAMELEN c), se_ncrashes = 1,
             se_callout = None\<rparr> = ?b"
    using k by (simp add: hash_key se_key_def)
  from lk ga len k show ?thesis
    by (simp add: pax_segvguard_add_def Let_def h
        PAX_SEGVGUARD_LOCK_def PAX_SEGVGUARD_UNLOCK_def LIST_INSERT_HEAD_def
        callout_reset_def se_update_def mtx_lock_def mtx_unlock_def entryhead_upd_all)
qed

lemma add_malloc_fails: "pax_segvguard_add c False td vn s = (None, s)"
  by (simp add: pax_segvguard_add_def)

lemma add_no_identity:
  "identity_of c td vn = None \<Longrightarrow>
   pax_segvguard_hashtbl (snd (pax_segvguard_add c malloc_ok td vn s)) = pax_segvguard_hashtbl s"
  by (auto simp: pax_segvguard_add_def identity_of_def tbl_printf split: if_splits option.splits)

text \<open>A crash report whose lookup finds nothing goes on to the insert.\<close>

lemma segfault_miss:
  assumes "pax_segvguard_active_td c td" and "p_textvp td = Some vn"
    and "fst (pax_segvguard_lookup c td vn s) = None"
  shows "pax_segvguard_segfault c malloc_ok vn_add td name s =
         (ESUCCESS, snd (pax_segvguard_add c malloc_ok td vn_add
                           (snd (pax_segvguard_lookup c td vn s))))"
  using assms
  by (cases "pax_segvguard_lookup c td vn s") (simp add: pax_segvguard_segfault_def)

subsection \<open>The invariant of the table\<close>

lemma table_ok_update:
  assumes "table_ok c s" and "b < pax_segvguard_hashsize" and "bucket_ok c b bk"
    and "pax_segvguard_hashtbl s' = (pax_segvguard_hashtbl s)[b := bk]"
  shows "table_ok c s'"
  using assms by (auto simp: table_ok_def nth_list_update)

lemma table_ok_same:
  "pax_segvguard_hashtbl s' = pax_segvguard_hashtbl s \<Longrightarrow> table_ok c s \<Longrightarrow> table_ok c s'"
  by (simp add: table_ok_def)

lemma bucket_ok_bump:
  assumes "bucket_ok c b bk" and "i < length (lh_first bk)"
    and "se_key e = se_key (lh_first bk ! i)" and "se_callout e \<noteq> None"
  shows "bucket_ok c b \<lparr>lh_first = (lh_first bk)[i := e], bucket_mtx = False\<rparr>"
proof -
  let ?xs = "lh_first bk"
  from assms(2) have in_xs: "?xs ! i \<in> set ?xs" by simp
  with assms(1) have old: "PAX_SEGVGUARD_HASH c (?xs ! i) = b"
      "length (se_mntpoint (?xs ! i)) \<le> MNAMELEN c"
    by (simp_all add: bucket_ok_def)
  from assms(3) have mnt: "se_mntpoint e = se_mntpoint (?xs ! i)"
    by (simp add: se_key_def)
  have e: "PAX_SEGVGUARD_HASH c e = b \<and> length (se_mntpoint e) \<le> MNAMELEN c \<and>
           se_callout e \<noteq> None"
    using old assms(3,4) mnt by (simp add: hash_key)
  have "\<forall>se \<in> set (?xs[i := e]).
          PAX_SEGVGUARD_HASH c se = b \<and> length (se_mntpoint se) \<le> MNAMELEN c \<and>
          se_callout se \<noteq> None"
  proof
    fix se assume "se \<in> set (?xs[i := e])"
    then have "se = e \<or> se \<in> set ?xs"
      using set_update_subset_insert [of ?xs i e] by auto
    with e assms(1) show "PAX_SEGVGUARD_HASH c se = b \<and>
        length (se_mntpoint se) \<le> MNAMELEN c \<and> se_callout se \<noteq> None"
      by (auto simp: bucket_ok_def)
  qed
  then show ?thesis by (simp add: bucket_ok_def)
qed

lemma bucket_ok_insert:
  assumes "bucket_ok c b bk" and "PAX_SEGVGUARD_HASH c e = b"
    and "length (se_mntpoint e) \<le> MNAMELEN c" and "se_callout e \<noteq> None"
  shows "bucket_ok c b \<lparr>lh_first = e # lh_first bk, bucket_mtx = False\<rparr>"
  using assms by (simp add: bucket_ok_def)

lemma bucket_ok_remove:
  assumes "bucket_ok c b bk"
  shows "bucket_ok c b \<lparr>lh_first = take i (lh_first bk) @ drop (Suc i) (lh_first bk),
                        bucket_mtx = False\<rparr>"
proof -
  let ?xs = "lh_first bk"
  have sub: "set (take i ?xs @ drop (Suc i) ?xs) \<subseteq> set ?xs"
    using set_take_subset [of i ?xs] set_drop_subset [of "Suc i" ?xs] by auto
  with assms show ?thesis by (auto simp: bucket_ok_def)
qed

lemma table_ok_sysinit: "table_ok c (pax_segvguard_sysinit c bootverbose s0)"
  by (simp add: table_ok_def bucket_ok_def pax_segvguard_sysinit_def Let_def)

lemma table_ok_lookup_miss:
  assumes "table_ok c s" and "fst (pax_segvguard_lookup c td vn s) = None"
  shows "table_ok c (snd (pax_segvguard_lookup c td vn s))"
  using lookup_none_tbl [OF assms] assms(1) by (rule table_ok_same)

lemma table_ok_add:
  assumes "table_ok c s"
  shows "table_ok c (snd (pax_segvguard_add c malloc_ok td vn s))"
proof (cases malloc_ok)
  case False
  with assms show ?thesis by (simp add: add_malloc_fails)
next
  case True
  show ?thesis
  proof (cases "identity_of c td vn")
    case None
    from add_no_identity [OF None] assms show ?thesis by (rule table_ok_same)
  next
    case (Some k)
    obtain u f m where k: "k = (u, f, m)" by (cases k)
    with Some have id: "identity_of c td vn = Some (u, f, m)" by simp
    let ?b = "bucket_of c (u, f, m)"
    let ?e = "\<lparr>se_uid = u, se_inode = f, se_mntpoint = m, se_ncrashes = 1,
               se_callout = Some (int_mul (expiry (td_prison td)) (hz c))\<rparr>"
    have blt: "?b < pax_segvguard_hashsize" by (rule bucket_of_lt)
    with assms have bok: "bucket_ok c ?b (pax_segvguard_hashtbl s ! ?b)"
      by (simp add: table_ok_def)
    have "bucket_ok c ?b \<lparr>lh_first = ?e # lh_first (pax_segvguard_hashtbl s ! ?b),
                           bucket_mtx = False\<rparr>"
      using identity_mnt_len [OF id]
      by (intro bucket_ok_insert [OF bok]) (simp_all add: hash_key se_key_def)
    from table_ok_update [OF assms blt this] add_ok [OF assms id] True show ?thesis
      by (simp add: Let_def)
  qed
qed

lemma check_tbl:
  assumes "table_ok c s"
  shows "pax_segvguard_hashtbl (snd (pax_segvguard_check c td v name s)) =
         pax_segvguard_hashtbl s"
proof (cases "pax_segvguard_active_td c td")
  case False
  then show ?thesis by (simp add: pax_segvguard_check_def)
next
  case act: True
  show ?thesis
  proof (cases v)
    case None
    with act show ?thesis by (simp add: pax_segvguard_check_def)
  next
    case (Some vn)
    show ?thesis
    proof (cases "identity_of c td vn")
      case None
      from lookup_none [OF None, of s] act Some show ?thesis
        by (cases "pax_segvguard_lookup c td vn s") (simp add: pax_segvguard_check_def)
    next
      case k: (Some k)
      obtain u f m where "k = (u, f, m)" by (cases k)
      with k have id: "identity_of c td vn = Some (u, f, m)" by simp
      from id obtain vat where "vop_getattr vn = Some vat" by (rule identity_cases)
      from check_ok [OF assms act id this, of name] Some show ?thesis
        by (simp add: tbl_printf split: option.split)
    qed
  qed
qed

lemma table_ok_segfault:
  assumes "table_ok c s"
  shows "table_ok c (snd (pax_segvguard_segfault c malloc_ok vn_add td name s))"
proof (cases "pax_segvguard_active_td c td")
  case False
  with assms show ?thesis by (simp add: pax_segvguard_segfault_def)
next
  case act: True
  show ?thesis
  proof (cases "p_textvp td")
    case None
    with act assms show ?thesis by (simp add: pax_segvguard_segfault_def)
  next
    case (Some vn)
    show ?thesis
    proof (cases "fst (pax_segvguard_lookup c td vn s)")
      case None
      from segfault_miss [OF act Some None, of malloc_ok vn_add name]
        table_ok_add [OF table_ok_lookup_miss [OF assms None]]
      show ?thesis by simp
    next
      case found: (Some p)
      have "identity_of c td vn \<noteq> None"
      proof
        assume "identity_of c td vn = None"
        from lookup_none [OF this, of s] found show False by simp
      qed
      then obtain k where "identity_of c td vn = Some k" by blast
      then obtain u f m where id: "identity_of c td vn = Some (u, f, m)" by (cases k) simp
      from id obtain vat where ga: "vop_getattr vn = Some vat" by (rule identity_cases)
      let ?b = "bucket_of c (u, f, m)"
      let ?bk = "pax_segvguard_hashtbl s ! ?b"
      let ?xs = "lh_first ?bk"
      from lookup_ok [OF assms id ga] found
      obtain i where m: "LIST_FOREACH_match (MNAMELEN c) (va_fileid vat) m u ?xs = Some i"
        by (auto split: option.splits)
      have blt: "?b < pax_segvguard_hashsize" by (rule bucket_of_lt)
      with assms have bok: "bucket_ok c ?b ?bk" by (simp add: table_ok_def)
      from match_lt [OF m] have i: "i < length ?xs" .
      then have "?xs ! i \<in> set ?xs" by simp
      with bok have armed: "se_callout (?xs ! i) \<noteq> None" by (simp add: bucket_ok_def)
      have b1: "bucket_ok c ?b \<lparr>lh_first = ?xs[i := (?xs ! i)\<lparr>se_ncrashes := n\<rparr>],
                                 bucket_mtx = False\<rparr>" for n
        using armed by (intro bucket_ok_bump [OF bok i]) (simp_all add: se_key_def)
      have b2: "bucket_ok c ?b \<lparr>lh_first = ?xs[i := (?xs ! i)\<lparr>se_ncrashes := n,
                                   se_callout := Some t\<rparr>], bucket_mtx = False\<rparr>" for n t
        by (intro bucket_ok_bump [OF bok i]) (simp_all add: se_key_def)
      from segfault_found [OF assms act Some id ga m, of malloc_ok vn_add name]
        table_ok_update [OF assms blt b1] table_ok_update [OF assms blt b2]
      show ?thesis by (simp add: Let_def)
    qed
  qed
qed

lemma callout_fire_tbl:
  assumes "b < length (pax_segvguard_hashtbl s)"
  shows "pax_segvguard_hashtbl (callout_fire (b, i) s) =
     (pax_segvguard_hashtbl s)
       [b := \<lparr>lh_first = take i (lh_first (pax_segvguard_hashtbl s ! b)) @
                          drop (Suc i) (lh_first (pax_segvguard_hashtbl s ! b)),
              bucket_mtx = False\<rparr>]"
  using assms
  by (simp add: callout_fire_def pax_segvguard_cleaner_def LIST_REMOVE_def Let_def
      mtx_lock_def mtx_unlock_def printf_def entryhead_upd_all)

lemma table_ok_fire:
  assumes "table_ok c s" and "b < length (pax_segvguard_hashtbl s)"
  shows "table_ok c (callout_fire (b, i) s)"
proof -
  from assms have blt: "b < pax_segvguard_hashsize" by (simp add: table_ok_def)
  with assms(1) have "bucket_ok c b (pax_segvguard_hashtbl s ! b)" by (simp add: table_ok_def)
  from table_ok_update [OF assms(1) blt bucket_ok_remove [OF this] callout_fire_tbl [OF assms(2)]]
  show ?thesis .
qed

lemma reachable_table_ok: "reachable c s \<Longrightarrow> table_ok c s"
proof (induction rule: reachable.induct)
  case (boot bootverbose s0)
  show ?case by (rule table_ok_sysinit)
next
  case (crash s malloc_ok vn_add td name)
  then show ?case by (simp add: table_ok_segfault)
next
  case (miss s td vn)
  then show ?case by (simp add: table_ok_lookup_miss)
next
  case (insert s malloc_ok td vn)
  then show ?case by (simp add: table_ok_add)
next
  case (exec s td v name)
  then show ?case using check_tbl table_ok_same by blast
next
  case (expire s b i)
  then show ?case by (simp add: table_ok_fire)
next
  case (set_expiry s is_prison0 err newval pr)
  then show ?case
    by (auto simp: sysctl_pax_segvguard_expiry_def table_ok_def split: option.splits)
next
  case (set_suspension s is_prison0 err newval pr)
  then show ?case
    by (auto simp: sysctl_pax_segvguard_suspension_def table_ok_def split: option.splits)
next
  case (set_maxcrashes s is_prison0 err newval pr)
  then show ?case
    by (auto simp: sysctl_pax_segvguard_maxcrashes_def table_ok_def split: option.splits)
qed

subsection \<open>Running the concrete kernel\<close>

lemma segfault_globals:
  "pax_segvguard_maxcrashes (snd (pax_segvguard_segfault c malloc_ok vn_add td name s)) =
     pax_segvguard_maxcrashes s \<and>
   pax_segvguard_suspension (snd (pax_segvguard_segfault c malloc_ok vn_add td name s)) =
     pax_segvguard_suspension s \<and>
   pax_segvguard_expiry (snd (pax_segvguard_segfault c malloc_ok vn_add td name s)) =
     pax_segvguard_expiry s \<and>
   pax_segvguard_status (snd (pax_segvguard_segfault c malloc_ok vn_add td name s)) =
     pax_segvguard_status s"
  by (simp add: pax_segvguard_segfault_def pax_segvguard_lookup_def pax_segvguard_add_def
      Let_def PAX_SEGVGUARD_LOCK_def PAX_SEGVGUARD_UNLOCK_def mtx_lock_def mtx_unlock_def
      printf_def se_update_def callout_reset_def LIST_INSERT_HEAD_def
      split: option.split prod.split)

lemma ex_bucket: "bucket_of amd64_kconsts ex_identity = 38"
  by (simp add: bucket_of_def ex_identity_def PAX_SEGVGUARD_HASH_def amd64_kconsts_def
      le_bytes_def str_bytes_def fnv1_32_def pax_segvguard_hashsize_def upt_conv_Cons
      drop_bit_eq_div)

lemma ex_ticks:
  "int_mul 120 (hz amd64_kconsts) = 120000" "int_mul 600 (hz amd64_kconsts) = 600000"
  by (simp_all add: int_mul_def amd64_kconsts_def)

lemma ex_jailed_active:
  "pax_segvguard_active_td amd64_kconsts ex_jailed"
  "pax_segvguard_active_td amd64_kconsts ex_jailed2"
  by (simp_all add: pax_segvguard_active_td_def pax_get_flags_td_def ex_jailed2_def
      ex_jailed_def ex_thread_def amd64_kconsts_def)

lemma ex_jailed_textvp: "p_textvp ex_jailed = Some ex_vnode"
  by (simp add: ex_jailed_def ex_thread_def)

lemma ex_getattr: "vop_getattr ex_vnode = Some \<lparr>va_fileid = 4242, va_mode = 0x16D\<rparr>"
  by (simp add: ex_vnode_def)

lemma ex_jailed_identity:
  "identity_of amd64_kconsts ex_jailed ex_vnode = Some ex_identity"
  "identity_of amd64_kconsts ex_jailed2 ex_vnode = Some ex_identity"
  by (simp_all add: identity_of_def ex_jailed2_def ex_jailed_def ex_thread_def ex_vnode_def
      ex_identity_def strncpy_def amd64_kconsts_def)

lemma ex_jailed_prison:
  "maxcrashes (td_prison ex_jailed) = 2" "suspension (td_prison ex_jailed) = 600"
  "expiry (td_prison ex_jailed) = 120" "expiry (td_prison ex_jailed2) = 120"
  by (simp_all add: ex_jailed2_def ex_jailed_def ex_jail_eq)

lemma ex_boot_bucket:
  "b < 512 \<Longrightarrow> lh_first (pax_segvguard_hashtbl ex_boot ! b) = []"
  by (simp add: ex_boot_eq)

lemma ex_boot_len: "length (pax_segvguard_hashtbl ex_boot) = 512"
  by (simp add: ex_boot_eq)

lemma ex_boot_ok: "table_ok amd64_kconsts ex_boot"
  unfolding ex_boot_def by (rule table_ok_sysinit)

lemma ex_lookup_boot:
  "pax_segvguard_lookup amd64_kconsts ex_jailed ex_vnode ex_boot = (None, ex_boot)"
  "pax_segvguard_lookup amd64_kconsts ex_jailed2 ex_vnode ex_boot = (None, ex_boot)"
  using lookup_ok [OF ex_boot_ok ex_jailed_identity(1) [unfolded ex_identity_def] ex_getattr]
    lookup_ok [OF ex_boot_ok ex_jailed_identity(2) [unfolded ex_identity_def] ex_getattr]
  by (simp_all add: ex_bucket [unfolded ex_identity_def] ex_boot_bucket)

lemma ex_reachable:
  "reachable amd64_kconsts ex_boot" "reachable amd64_kconsts ex_crash1"
  "reachable amd64_kconsts ex_crash2" "reachable amd64_kconsts ex_crash3"
  unfolding ex_boot_def ex_crash1_def ex_crash2_def ex_crash3_def
  by (intro reachable.crash reachable.boot)+

lemma ex_globals:
  "pax_segvguard_maxcrashes ex_crash1 = 5" "pax_segvguard_maxcrashes ex_crash2 = 5"
  "pax_segvguard_maxcrashes ex_crash3 = 5"
  by (simp_all add: ex_crash1_def ex_crash2_def ex_crash3_def segfault_globals ex_boot_eq)

lemma ex_crash1_eq:
  "ex_crash1 = ex_boot\<lparr>pax_segvguard_hashtbl := (pax_segvguard_hashtbl ex_boot)
     [38 := \<lparr>lh_first = [\<lparr>se_uid = 1001, se_inode = 4242, se_mntpoint = ''/usr'',
                           se_ncrashes = 1, se_callout = Some 120000\<rparr>],
             bucket_mtx = False\<rparr>]\<rparr>"
proof -
  have "fst (pax_segvguard_lookup amd64_kconsts ex_jailed ex_vnode ex_boot) = None"
    by (simp add: ex_lookup_boot)
  from segfault_miss [OF ex_jailed_active(1) ex_jailed_textvp this, of True ex_vnode "''sh''"]
    add_ok [OF reachable_table_ok [OF ex_reachable(1)]
      ex_jailed_identity(1) [unfolded ex_identity_def]]
  show ?thesis
    by (simp add: ex_crash1_def ex_lookup_boot Let_def ex_bucket [unfolded ex_identity_def]
        ex_boot_bucket ex_jailed_prison ex_ticks)
qed

lemma ex_crash_step:
  assumes "reachable amd64_kconsts s" and "pax_segvguard_maxcrashes s = 5"
    and "pax_segvguard_hashtbl s = (pax_segvguard_hashtbl ex_boot)
     [38 := \<lparr>lh_first = [\<lparr>se_uid = 1001, se_inode = 4242, se_mntpoint = ''/usr'',
                           se_ncrashes = n, se_callout = Some 120000\<rparr>],
             bucket_mtx = False\<rparr>]"
    and "\<not> (5 :: size_t) \<le> n + 1"
  shows "snd (pax_segvguard_segfault amd64_kconsts True ex_vnode ex_jailed ''sh'' s) =
     s\<lparr>pax_segvguard_hashtbl := (pax_segvguard_hashtbl ex_boot)
     [38 := \<lparr>lh_first = [\<lparr>se_uid = 1001, se_inode = 4242, se_mntpoint = ''/usr'',
                           se_ncrashes = n + 1, se_callout = Some 120000\<rparr>],
             bucket_mtx = False\<rparr>]\<rparr>"
proof -
  have b: "lh_first (pax_segvguard_hashtbl s ! 38) =
           [\<lparr>se_uid = 1001, se_inode = 4242, se_mntpoint = ''/usr'',
             se_ncrashes = n, se_callout = Some 120000\<rparr>]"
    by (simp add: assms(3) ex_boot_eq)
  have m: "LIST_FOREACH_match (MNAMELEN amd64_kconsts)
             (va_fileid \<lparr>va_fileid = 4242, va_mode = 0x16D\<rparr>) ''/usr'' 1001
             (lh_first (pax_segvguard_hashtbl s ! bucket_of amd64_kconsts (1001, 4242, ''/usr'')))
           = Some 0"
    by (simp add: b ex_bucket [unfolded ex_identity_def] strncmp_eq_def)
  from segfault_found [OF reachable_table_ok [OF assms(1)] ex_jailed_active(1) ex_jailed_textvp
      ex_jailed_identity(1) [unfolded ex_identity_def] ex_getattr m, of True ex_vnode "''sh''"]
    assms(4)
  show ?thesis
    by (simp add: Let_def ex_bucket [unfolded ex_identity_def] assms(2,3) ex_boot_len)
qed

lemma ex_crash2_eq:
  "ex_crash2 = ex_boot\<lparr>pax_segvguard_hashtbl := (pax_segvguard_hashtbl ex_boot)
     [38 := \<lparr>lh_first = [\<lparr>se_uid = 1001, se_inode = 4242, se_mntpoint = ''/usr'',
                           se_ncrashes = 2, se_callout = Some 120000\<rparr>],
             bucket_mtx = False\<rparr>]\<rparr>"
  using ex_crash_step [OF ex_reachable(2) ex_globals(1), of 1]
  by (simp add: ex_crash2_def ex_crash1_eq)

lemma ex_crash3_eq:
  "ex_crash3 = ex_boot\<lparr>pax_segvguard_hashtbl := (pax_segvguard_hashtbl ex_boot)
     [38 := \<lparr>lh_first = [\<lparr>se_uid = 1001, se_inode = 4242, se_mntpoint = ''/usr'',
                           se_ncrashes = 3, se_callout = Some 120000\<rparr>],
             bucket_mtx = False\<rparr>]\<rparr>"
  using ex_crash_step [OF ex_reachable(3) ex_globals(2), of 2]
  by (simp add: ex_crash3_def ex_crash2_eq)

lemma ex_records_of:
  assumes "reachable amd64_kconsts s"
    and "pax_segvguard_hashtbl s = (pax_segvguard_hashtbl ex_boot)[38 := bk]"
  shows "records_of ex_identity s = filter (\<lambda>se. se_key se = ex_identity) (lh_first bk)"
  using records_of_bucket [OF reachable_table_ok [OF assms(1)], of ex_identity]
  by (simp add: ex_bucket assms(2) ex_boot_eq)

lemma ex_records_boot: "records_of ex_identity ex_boot = []"
  by (simp add: records_of_def records_def ex_boot_eq)

lemma ex_records_crash1:
  "records_of ex_identity ex_crash1 =
     [\<lparr>se_uid = 1001, se_inode = 4242, se_mntpoint = ''/usr'', se_ncrashes = 1,
       se_callout = Some 120000\<rparr>] \<and> console ex_crash1 = []"
  using ex_records_of [OF ex_reachable(2)]
  by (simp add: ex_crash1_eq se_key_def ex_identity_def ex_boot_eq)

lemma ex_records_crash2:
  "records_of ex_identity ex_crash2 =
     [\<lparr>se_uid = 1001, se_inode = 4242, se_mntpoint = ''/usr'', se_ncrashes = 2,
       se_callout = Some 120000\<rparr>] \<and> console ex_crash2 = []"
  using ex_records_of [OF ex_reachable(3)]
  by (simp add: ex_crash2_eq se_key_def ex_identity_def ex_boot_eq)

lemma ex_records_crash3:
  "records_of ex_identity ex_crash3 =
     [\<lparr>se_uid = 1001, se_inode = 4242, se_mntpoint = ''/usr'', se_ncrashes = 3,
       se_callout = Some 120000\<rparr>] \<and> console ex_crash3 = []"
  using ex_records_of [OF ex_reachable(4)]
  by (simp add: ex_crash3_eq se_key_def ex_identity_def ex_boot_eq)

lemma ex_check3:
  "fst (pax_segvguard_check amd64_kconsts ex_jailed (Some ex_vnode) ''sh'' ex_crash3) = ESUCCESS"
proof -
  have b: "lh_first (pax_segvguard_hashtbl ex_crash3 ! 38) =
           [\<lparr>se_uid = 1001, se_inode = 4242, se_mntpoint = ''/usr'',
             se_ncrashes = 3, se_callout = Some 120000\<rparr>]"
    by (simp add: ex_crash3_eq ex_boot_eq)
  from check_ok [OF reachable_table_ok [OF ex_reachable(4)] ex_jailed_active(1)
      ex_jailed_identity(1) [unfolded ex_identity_def] ex_getattr, of "''sh''"]
  show ?thesis
    by (simp add: ex_bucket [unfolded ex_identity_def] b ex_globals strncmp_eq_def)
qed

subsection \<open>One record per identity\<close>

text \<open>
  A file id that does not fit the \<^verbatim>\<open>ino_t\<close> of the entries is never found again.
\<close>

lemma wide_fileid_never_found:
  assumes "table_ok c s" and "identity_of c td vn = Some k" and "vop_getattr vn = Some vat"
    and "va_fileid vat \<noteq> ucast (ucast (va_fileid vat) :: ino_t)"
  shows "pax_segvguard_lookup c td vn s = (None, s)"
proof -
  obtain u f m where k: "k = (u, f, m)" by (cases k)
  from lookup_ok [OF assms(1) assms(2) [unfolded k] assms(3)] match_never [OF assms(4)]
  show ?thesis by simp
qed

lemma ex_race_looked_up_eq: "ex_race_looked_up = ex_boot"
  by (simp add: ex_race_looked_up_def ex_lookup_boot)

lemma ex_race_eq:
  "ex_race = ex_boot\<lparr>pax_segvguard_hashtbl := (pax_segvguard_hashtbl ex_boot)
     [38 := \<lparr>lh_first = [\<lparr>se_uid = 1001, se_inode = 4242, se_mntpoint = ''/usr'',
                           se_ncrashes = 1, se_callout = Some 120000\<rparr>,
                          \<lparr>se_uid = 1001, se_inode = 4242, se_mntpoint = ''/usr'',
                           se_ncrashes = 1, se_callout = Some 120000\<rparr>],
             bucket_mtx = False\<rparr>]\<rparr>"
proof -
  let ?s1 = "snd (pax_segvguard_add amd64_kconsts True ex_jailed ex_vnode ex_boot)"
  have s1: "?s1 = ex_boot\<lparr>pax_segvguard_hashtbl := (pax_segvguard_hashtbl ex_boot)
     [38 := \<lparr>lh_first = [\<lparr>se_uid = 1001, se_inode = 4242, se_mntpoint = ''/usr'',
                           se_ncrashes = 1, se_callout = Some 120000\<rparr>],
             bucket_mtx = False\<rparr>]\<rparr>"
    using add_ok [OF ex_boot_ok ex_jailed_identity(1) [unfolded ex_identity_def]]
    by (simp add: Let_def ex_bucket [unfolded ex_identity_def] ex_boot_bucket
        ex_jailed_prison ex_ticks)
  have ok1: "table_ok amd64_kconsts ?s1" by (rule table_ok_add [OF ex_boot_ok])
  from add_ok [OF ok1 ex_jailed_identity(2) [unfolded ex_identity_def]]
  show ?thesis
    by (simp add: ex_race_def ex_race_looked_up_eq Let_def ex_bucket [unfolded ex_identity_def]
        s1 ex_boot_len ex_jailed_prison ex_ticks)
qed

lemma ex_race_reachable: "reachable amd64_kconsts ex_race"
proof -
  have r0: "reachable amd64_kconsts ex_boot" by (rule ex_reachable(1))
  have "reachable amd64_kconsts
          (snd (pax_segvguard_lookup amd64_kconsts ex_jailed ex_vnode ex_boot))"
    by (rule reachable.miss [OF r0]) (simp add: ex_lookup_boot)
  then have "reachable amd64_kconsts ex_race_looked_up"
    unfolding ex_race_looked_up_def
    by (rule reachable.miss) (simp add: ex_lookup_boot)
  then show ?thesis
    unfolding ex_race_def by (intro reachable.insert)
qed

text \<open>
  Claim C6 says that the table never holds two live records of one identity. The
  lookup of a crash report releases the bucket mutex when it finds nothing, and the
  insert puts its record at the head of the bucket without searching again. Here two
  processes of one user crash in the same binary right after boot: each looks its
  record up and finds none, then each inserts one, and the table holds two records of
  the one identity, both with count 1.
\<close>

theorem C6_concurrent_crashes_two_records:
  "identity_of amd64_kconsts ex_jailed ex_vnode = Some ex_identity \<and>
   identity_of amd64_kconsts ex_jailed2 ex_vnode = Some ex_identity \<and>
   fst (pax_segvguard_lookup amd64_kconsts ex_jailed ex_vnode ex_boot) = None \<and>
   fst (pax_segvguard_lookup amd64_kconsts ex_jailed2 ex_vnode
          (snd (pax_segvguard_lookup amd64_kconsts ex_jailed ex_vnode ex_boot))) = None \<and>
   ex_race =
     snd (pax_segvguard_add amd64_kconsts True ex_jailed2 ex_vnode
            (snd (pax_segvguard_add amd64_kconsts True ex_jailed ex_vnode
                    (snd (pax_segvguard_lookup amd64_kconsts ex_jailed2 ex_vnode
                           (snd (pax_segvguard_lookup amd64_kconsts ex_jailed ex_vnode
                                   ex_boot))))))) \<and>
   reachable amd64_kconsts ex_race \<and>
   records_of ex_identity ex_race =
     [\<lparr>se_uid = 1001, se_inode = 4242, se_mntpoint = ''/usr'', se_ncrashes = 1,
       se_callout = Some 120000\<rparr>,
      \<lparr>se_uid = 1001, se_inode = 4242, se_mntpoint = ''/usr'', se_ncrashes = 1,
       se_callout = Some 120000\<rparr>] \<and>
   length (records_of ex_identity ex_race) = 2"
proof -
  have r: "records_of ex_identity ex_race =
     [\<lparr>se_uid = 1001, se_inode = 4242, se_mntpoint = ''/usr'', se_ncrashes = 1,
       se_callout = Some 120000\<rparr>,
      \<lparr>se_uid = 1001, se_inode = 4242, se_mntpoint = ''/usr'', se_ncrashes = 1,
       se_callout = Some 120000\<rparr>]"
    using ex_records_of [OF ex_race_reachable]
    by (simp add: ex_race_eq se_key_def ex_identity_def)
  have d: "ex_race =
     snd (pax_segvguard_add amd64_kconsts True ex_jailed2 ex_vnode
            (snd (pax_segvguard_add amd64_kconsts True ex_jailed ex_vnode
                    (snd (pax_segvguard_lookup amd64_kconsts ex_jailed2 ex_vnode
                           (snd (pax_segvguard_lookup amd64_kconsts ex_jailed ex_vnode
                                   ex_boot)))))))"
    by (simp add: ex_race_def ex_race_looked_up_def)
  show ?thesis
    using ex_jailed_identity ex_race_reachable r d by (simp add: ex_lookup_boot)
qed

text \<open>
  The same happens within one crash report, with no other thread, when the attributes
  of the binary cannot be read during the lookup and can be read during the insert:
  the record that is there is not found and a second one is inserted.
\<close>

lemma flaky_getattr_two_records:
  "reachable amd64_kconsts ex_flaky \<and>
   records_of ex_identity ex_crash1 =
     [\<lparr>se_uid = 1001, se_inode = 4242, se_mntpoint = ''/usr'', se_ncrashes = 1,
       se_callout = Some 120000\<rparr>] \<and>
   records_of ex_identity ex_flaky =
     [\<lparr>se_uid = 1001, se_inode = 4242, se_mntpoint = ''/usr'', se_ncrashes = 1,
       se_callout = Some 120000\<rparr>,
      \<lparr>se_uid = 1001, se_inode = 4242, se_mntpoint = ''/usr'', se_ncrashes = 1,
       se_callout = Some 120000\<rparr>]"
proof -
  let ?td = "ex_jailed\<lparr>p_textvp := Some ex_vnode_noattr\<rparr>"
  let ?s1 = "printf (MsgGetattrError ''pax_segvguard_lookup'') ex_crash1"
  have act: "pax_segvguard_active_td amd64_kconsts ?td"
    using ex_jailed_active(1) by (simp add: pax_segvguard_active_td_def pax_get_flags_td_def)
  have l: "pax_segvguard_lookup amd64_kconsts ?td ex_vnode_noattr ex_crash1 = (None, ?s1)"
    by (simp add: pax_segvguard_lookup_def ex_vnode_noattr_def ex_vnode_def)
  have id: "identity_of amd64_kconsts ?td ex_vnode = Some (1001, 4242, ''/usr'')"
    by (simp add: identity_of_def ex_jailed_def ex_thread_def ex_vnode_def strncpy_def
        amd64_kconsts_def)
  have ok: "table_ok amd64_kconsts ?s1"
    using reachable_table_ok [OF ex_reachable(2)] by (simp add: table_ok_def tbl_printf)
  have r: "reachable amd64_kconsts ex_flaky"
    unfolding ex_flaky_def by (rule reachable.crash [OF ex_reachable(2)])
  have "pax_segvguard_hashtbl ex_flaky = (pax_segvguard_hashtbl ex_boot)
     [38 := \<lparr>lh_first = [\<lparr>se_uid = 1001, se_inode = 4242, se_mntpoint = ''/usr'',
                           se_ncrashes = 1, se_callout = Some 120000\<rparr>,
                          \<lparr>se_uid = 1001, se_inode = 4242, se_mntpoint = ''/usr'',
                           se_ncrashes = 1, se_callout = Some 120000\<rparr>],
             bucket_mtx = False\<rparr>]"
    using segfault_miss [OF act _ _, of ex_vnode_noattr ex_crash1 True ex_vnode "''sh''"]
      add_ok [OF ok id] l
    by (simp add: ex_flaky_def Let_def ex_bucket [unfolded ex_identity_def] tbl_printf
        ex_crash1_eq ex_boot_len ex_jailed_prison ex_ticks)
  from ex_records_of [OF r this]
  have "records_of ex_identity ex_flaky =
     [\<lparr>se_uid = 1001, se_inode = 4242, se_mntpoint = ''/usr'', se_ncrashes = 1,
       se_callout = Some 120000\<rparr>,
      \<lparr>se_uid = 1001, se_inode = 4242, se_mntpoint = ''/usr'', se_ncrashes = 1,
       se_callout = Some 120000\<rparr>]"
    by (simp add: se_key_def ex_identity_def)
  with r ex_records_crash1 show ?thesis by simp
qed

subsection \<open>The exec-time check\<close>

text \<open>
  Claim C10. The exec-time check never changes a record: whatever it returns, every
  bucket holds the same records with the same counts and countdowns afterwards, and
  in a reachable state the whole table, bucket mutexes included, is as before.
\<close>

theorem C10_check_leaves_table_unchanged:
  "records (snd (pax_segvguard_check c td v name s)) = records s \<and>
   map lh_first (pax_segvguard_hashtbl (snd (pax_segvguard_check c td v name s))) =
     map lh_first (pax_segvguard_hashtbl s) \<and>
   (reachable c s \<longrightarrow>
      pax_segvguard_hashtbl (snd (pax_segvguard_check c td v name s)) =
        pax_segvguard_hashtbl s)"
  using records_check [of c td v name s] check_tbl [OF reachable_table_ok, of c s td v name]
  by (simp add: records_def)

theorem C10_check_leaves_table_unchanged_witness:
  "reachable amd64_kconsts ex_crash3 \<and>
   records ex_crash3 \<noteq> [] \<and>
   records (snd (pax_segvguard_check amd64_kconsts ex_jailed (Some ex_vnode) ''sh'' ex_crash3)) =
     records ex_crash3 \<and>
   pax_segvguard_hashtbl
     (snd (pax_segvguard_check amd64_kconsts ex_jailed (Some ex_vnode) ''sh'' ex_crash3)) =
     pax_segvguard_hashtbl ex_crash3"
proof -
  have "records_of ex_identity ex_crash3 \<noteq> []" by (simp add: ex_records_crash3)
  then have "records ex_crash3 \<noteq> []" by (auto simp: records_of_def)
  with C10_check_leaves_table_unchanged [of amd64_kconsts ex_jailed "Some ex_vnode" "''sh''"
      ex_crash3] ex_reachable(4)
  show ?thesis by simp
qed

text \<open>
  Claim C1 says that the check denies exactly when the record's count has reached the
  threshold configured for the scope of the thread. The check reads the process-wide
  \<^verbatim>\<open>pax_segvguard_maxcrashes\<close> instead, never the \<^verbatim>\<open>maxcrashes\<close> of the prison. Here
  a jail has its threshold set to 2 through the control interface while the
  process-wide value is 5; after three crashes of the jailed thread the record of its
  identity has count 3, and the check still allows.
\<close>

theorem C1_check_ignores_scope_threshold:
  "reachable amd64_kconsts ex_crash3 \<and>
   pax_segvguard_active_td amd64_kconsts ex_jailed \<and>
   identity_of amd64_kconsts ex_jailed ex_vnode = Some ex_identity \<and>
   maxcrashes (td_prison ex_jailed) = 2 \<and>
   records_of ex_identity ex_crash3 =
     [\<lparr>se_uid = 1001, se_inode = 4242, se_mntpoint = ''/usr'', se_ncrashes = 3,
       se_callout = Some 120000\<rparr>] \<and>
   pax_segvguard_maxcrashes ex_crash3 = 5 \<and>
   fst (pax_segvguard_check amd64_kconsts ex_jailed (Some ex_vnode) ''sh'' ex_crash3) = ESUCCESS"
  using ex_reachable(4) ex_jailed_active(1) ex_jailed_identity(1) ex_jailed_prison(1)
    ex_records_crash3 ex_globals(3) ex_check3
  by simp

subsection \<open>Crash recording\<close>

text \<open>
  Claim C3 says that a crash which brings the count to the threshold of the scope
  re-arms the countdown for the suspension time of the scope and logs it. The count
  is incremented, and the countdown is re-armed with the suspension time of the
  prison, but the threshold compared is the process-wide one. In the jail with
  threshold 2 the second crash brings the count to 2, and the countdown stays at the
  expiry of 120000 ticks where 600000 are due, and nothing is logged.
\<close>

theorem C3_segfault_ignores_scope_threshold:
  "reachable amd64_kconsts ex_crash1 \<and>
   pax_segvguard_active_td amd64_kconsts ex_jailed \<and>
   identity_of amd64_kconsts ex_jailed ex_vnode = Some ex_identity \<and>
   maxcrashes (td_prison ex_jailed) = 2 \<and>
   suspension (td_prison ex_jailed) * hz amd64_kconsts = 600000 \<and>
   int_mul (suspension (td_prison ex_jailed)) (hz amd64_kconsts) = 600000 \<and>
   records_of ex_identity ex_crash1 =
     [\<lparr>se_uid = 1001, se_inode = 4242, se_mntpoint = ''/usr'', se_ncrashes = 1,
       se_callout = Some 120000\<rparr>] \<and>
   ex_crash2 =
     snd (pax_segvguard_segfault amd64_kconsts True ex_vnode ex_jailed ''sh'' ex_crash1) \<and>
   records_of ex_identity ex_crash2 =
     [\<lparr>se_uid = 1001, se_inode = 4242, se_mntpoint = ''/usr'', se_ncrashes = 2,
       se_callout = Some 120000\<rparr>] \<and>
   console ex_crash2 = []"
  using ex_reachable(2) ex_jailed_active(1) ex_jailed_identity(1) ex_jailed_prison(1,2)
    ex_records_crash1 ex_records_crash2 ex_ticks(2)
  by (simp add: ex_crash2_def) (simp add: amd64_kconsts_def)

text \<open>
  Claim C5, as amended. When the check is given no backing image it leaves the state
  as it is and returns 0 if the guard is inactive for the thread and \<^verbatim>\<open>EFAULT\<close> if
  it is active: never \<^verbatim>\<open>EPERM\<close>. When the image is there and its identity cannot
  be derived (the vnode cannot be locked, or its attributes cannot be read), the check
  returns 0 and the table is unchanged.
\<close>

theorem C5_missing_image_or_identity:
  "pax_segvguard_check c td None name s =
     (if pax_segvguard_active_td c td then EFAULT else ESUCCESS, s) \<and>
   fst (pax_segvguard_check c td None name s) \<noteq> EPERM \<and>
   (identity_of c td vn = None \<longrightarrow>
      fst (pax_segvguard_check c td (Some vn) name s) = ESUCCESS \<and>
      pax_segvguard_hashtbl (snd (pax_segvguard_check c td (Some vn) name s)) =
        pax_segvguard_hashtbl s)"
proof (intro conjI impI)
  show "pax_segvguard_check c td None name s =
          (if pax_segvguard_active_td c td then EFAULT else ESUCCESS, s)"
    by (simp add: pax_segvguard_check_def)
  then show "fst (pax_segvguard_check c td None name s) \<noteq> EPERM" by simp
  assume none: "identity_of c td vn = None"
  obtain r s1 where l: "pax_segvguard_lookup c td vn s = (r, s1)"
    by (cases "pax_segvguard_lookup c td vn s")
  with lookup_none [OF none, of s] have r: "r = None"
    and t: "pax_segvguard_hashtbl s1 = pax_segvguard_hashtbl s" by simp_all
  from l r show "fst (pax_segvguard_check c td (Some vn) name s) = ESUCCESS"
    by (simp add: pax_segvguard_check_def)
  from l r t show "pax_segvguard_hashtbl (snd (pax_segvguard_check c td (Some vn) name s)) =
        pax_segvguard_hashtbl s"
    by (simp add: pax_segvguard_check_def)
qed

theorem C5_missing_image_or_identity_witness:
  "identity_of amd64_kconsts ex_jailed ex_vnode_noattr = None \<and>
   pax_segvguard_active_td amd64_kconsts ex_jailed \<and>
   pax_segvguard_check amd64_kconsts ex_jailed None ''sh'' ex_crash3 = (EFAULT, ex_crash3) \<and>
   fst (pax_segvguard_check amd64_kconsts ex_jailed (Some ex_vnode_noattr) ''sh'' ex_crash3) =
     ESUCCESS"
proof -
  have n: "identity_of amd64_kconsts ex_jailed ex_vnode_noattr = None"
    by (simp add: identity_of_def ex_vnode_noattr_def ex_vnode_def)
  with C5_missing_image_or_identity [of amd64_kconsts ex_jailed "''sh''" ex_crash3
      ex_vnode_noattr] ex_jailed_active(1)
  show ?thesis by simp
qed

text \<open>
  The claim as written fails: a thread with the guard active and no backing image
  does not get 0 from the check.
\<close>

theorem C5_missing_image_counterexample:
  "pax_segvguard_active_td amd64_kconsts ex_thread \<and>
   fst (pax_segvguard_check amd64_kconsts ex_thread None ''sh'' ex_boot) \<noteq> ESUCCESS"
  by (simp add: pax_segvguard_check_def pax_segvguard_active_td_def pax_get_flags_td_def
      ex_thread_def amd64_kconsts_def)

text \<open>
  Claim C8. When the allocation fails the insert operation returns no record and leaves
  the state as it is; a crash report that gets to the allocation (the guard is active,
  the image is there, the lookup found nothing) still returns 0, with the same records
  in every bucket, and in a reachable state with the table exactly as before.
\<close>

theorem C8_allocation_failure_not_tracked:
  "pax_segvguard_add c False td vn s = (None, s) \<and>
   (pax_segvguard_active_td c td \<and> p_textvp td = Some vn \<and>
    fst (pax_segvguard_lookup c td vn s) = None \<longrightarrow>
      fst (pax_segvguard_segfault c False vn_add td name s) = ESUCCESS \<and>
      records (snd (pax_segvguard_segfault c False vn_add td name s)) = records s \<and>
      (reachable c s \<longrightarrow>
         pax_segvguard_hashtbl (snd (pax_segvguard_segfault c False vn_add td name s)) =
           pax_segvguard_hashtbl s))"
proof (intro conjI impI)
  show "pax_segvguard_add c False td vn s = (None, s)" by (rule add_malloc_fails)
  assume h: "pax_segvguard_active_td c td \<and> p_textvp td = Some vn \<and>
             fst (pax_segvguard_lookup c td vn s) = None"
  then have sf: "pax_segvguard_segfault c False vn_add td name s =
                 (ESUCCESS, snd (pax_segvguard_lookup c td vn s))"
    using segfault_miss [of c td vn s False vn_add name] by (simp add: add_malloc_fails)
  then show "fst (pax_segvguard_segfault c False vn_add td name s) = ESUCCESS" by simp
  from sf records_lookup [of c td vn s]
  show "records (snd (pax_segvguard_segfault c False vn_add td name s)) = records s"
    by (simp add: records_def)
  assume "reachable c s"
  then have "table_ok c s" by (rule reachable_table_ok)
  from lookup_none_tbl [OF this, of td vn] h sf
  show "pax_segvguard_hashtbl (snd (pax_segvguard_segfault c False vn_add td name s)) =
           pax_segvguard_hashtbl s"
    by simp
qed

theorem C8_allocation_failure_not_tracked_witness:
  "reachable amd64_kconsts ex_boot \<and>
   pax_segvguard_active_td amd64_kconsts ex_jailed \<and> p_textvp ex_jailed = Some ex_vnode \<and>
   fst (pax_segvguard_lookup amd64_kconsts ex_jailed ex_vnode ex_boot) = None \<and>
   pax_segvguard_add amd64_kconsts False ex_jailed ex_vnode ex_boot = (None, ex_boot) \<and>
   fst (pax_segvguard_segfault amd64_kconsts False ex_vnode ex_jailed ''sh'' ex_boot) =
     ESUCCESS \<and>
   records (snd (pax_segvguard_segfault amd64_kconsts False ex_vnode ex_jailed ''sh''
      ex_boot)) = [] \<and>
   pax_segvguard_hashtbl (snd (pax_segvguard_segfault amd64_kconsts False ex_vnode ex_jailed
      ''sh'' ex_boot)) = pax_segvguard_hashtbl ex_boot"
proof -
  have r: "records ex_boot = []" by (simp add: records_def ex_boot_eq)
  have l: "fst (pax_segvguard_lookup amd64_kconsts ex_jailed ex_vnode ex_boot) = None"
    by (simp add: ex_lookup_boot)
  from C8_allocation_failure_not_tracked [of amd64_kconsts ex_jailed ex_vnode ex_boot
      ex_vnode "''sh''"]
    ex_reachable(1) ex_jailed_active(1) ex_jailed_textvp l r
  show ?thesis by simp
qed

end
